theory Spec2Isabelle
  imports Main "HOL-Library.Word" "HOL-Library.Sublist" "HOL-Library.Multiset"
    "HOL-Library.Product_Lexorder"
begin

section \<open>JavaScript values used by the readers\<close>

text \<open>
  A JavaScript string is a sequence of UTF-16 code units. The cells of a sheet row, the
  fields of the parsed records and the company names are strings of this kind; the cache
  keys, which are ASCII constants of the code, are written as HOL strings.
\<close>

type_synonym jstring = "16 word list"

definition str :: "string \<Rightarrow> jstring" where
  "str s = map of_char s"

text \<open>
  \<open>String.prototype.toLowerCase\<close> is the engine's: it lower-cases every cased code point
  by the Unicode tables, reads a pair of surrogates as one code point, and may change the
  length of a string. Every function below that calls it takes it as the parameter
  \<open>toLowerCase\<close>, and what is proved holds for whatever function that is.
\<close>

text \<open>
  \<open>String.prototype.trim\<close> removes the WhiteSpace and LineTerminator code points of
  ECMAScript from both ends.
\<close>

definition isLineTerminator :: "16 word \<Rightarrow> bool" where
  "isLineTerminator c = (c = 0x0A \<or> c = 0x0D \<or> c = 0x2028 \<or> c = 0x2029)"

definition isWhiteSpace :: "16 word \<Rightarrow> bool" where
  "isWhiteSpace c =
     (c = 0x09 \<or> c = 0x0B \<or> c = 0x0C \<or> c = 0x20 \<or> c = 0xA0 \<or> c = 0x1680
      \<or> (0x2000 \<le> c \<and> c \<le> 0x200A) \<or> c = 0x202F \<or> c = 0x205F \<or> c = 0x3000
      \<or> c = 0xFEFF \<or> isLineTerminator c)"

definition trim :: "jstring \<Rightarrow> jstring" where
  "trim s = rev (dropWhile isWhiteSpace (rev (dropWhile isWhiteSpace s)))"

text \<open>
  A raw row of the sheet is an array of string cells. \<open>row[i] || ''\<close> is the cell at
  \<open>i\<close> when the row has one and it is not empty, and the empty string otherwise: reading
  past the end of a JavaScript array gives \<open>undefined\<close>, which is falsy.
\<close>

type_synonym row = "jstring list"

definition cell :: "row \<Rightarrow> nat \<Rightarrow> jstring" where
  "cell r i = (if i < length r then r ! i else [])"

text \<open>\<open>new Map(entries)\<close> sets the entries in order, so a later entry replaces an earlier one
  with the same key; \<open>Map.prototype.get\<close> is the lookup.\<close>

definition Map_of_entries :: "('k \<times> 'v) list \<Rightarrow> ('k \<rightharpoonup> 'v)" where
  "Map_of_entries es = foldl (\<lambda>m (k, v). m(k \<mapsto> v)) Map.empty es"

text \<open>\<open>m.get(k) || d\<close> on a map of strings: the default replaces a missing and an empty value.\<close>

definition getOr :: "('k \<rightharpoonup> jstring) \<Rightarrow> 'k \<Rightarrow> jstring \<Rightarrow> jstring" where
  "getOr m k d = (case m k of None \<Rightarrow> d | Some v \<Rightarrow> if v = [] then d else v)"

text \<open>\<open>String.prototype.includes\<close>: the argument occurs as a contiguous run of units.\<close>

fun includes_str :: "jstring \<Rightarrow> jstring \<Rightarrow> bool" where
  "includes_str [] t = (t = [])"
| "includes_str (c # cs) t = (prefix t (c # cs) \<or> includes_str cs t)"


text \<open>
  \<open>Array.prototype.sort(compareFn)\<close>. A comparator returns a number, and \<open>NaN\<close> (here
  \<open>None\<close>) counts as \<open>0\<close>. The sort is stable; when the comparator is a consistent
  ordering of the elements the result is fixed by that, and it is the result of the stable
  insertion sort below. For a comparator that is not consistent ECMAScript leaves the order
  to the engine; what is proved below of the order of a sorted array is therefore stated for
  arrays on which the comparator is consistent.
\<close>

type_synonym 'a comparator = "'a \<Rightarrow> 'a \<Rightarrow> int option"

definition sortCompare :: "'a comparator \<Rightarrow> 'a \<Rightarrow> 'a \<Rightarrow> int" where
  "sortCompare cmp x y = (case cmp x y of None \<Rightarrow> 0 | Some v \<Rightarrow> v)"

fun js_insert :: "'a comparator \<Rightarrow> 'a \<Rightarrow> 'a list \<Rightarrow> 'a list" where
  "js_insert cmp x [] = [x]"
| "js_insert cmp x (y # ys) =
     (if sortCompare cmp x y > 0 then y # js_insert cmp x ys else x # y # ys)"

definition js_sort :: "'a comparator \<Rightarrow> 'a list \<Rightarrow> 'a list" where
  "js_sort cmp xs = foldr (js_insert cmp) xs []"

text \<open>\<open>rows.map((row, index) => f(row, index))\<close>\<close>

definition mapIndexed :: "('a \<Rightarrow> nat \<Rightarrow> 'b) \<Rightarrow> 'a list \<Rightarrow> 'b list" where
  "mapIndexed f xs = map (\<lambda>(x, i). f x i) (zip xs [0..<length xs])"


section \<open>The shared cache and the table source\<close>

text \<open>
  \<open>this.cache\<close> is one object shared by all readers: a cache key is bound to an object
  \<open>{ data, timestamp }\<close>, where \<open>data\<close> may be \<open>null\<close>. What is stored under a key is
  whatever the reader of that key built: the settings object, the user array, or an array of
  parsed records.
\<close>

record item =
  it_value :: jstring
  it_note :: jstring
  it_order :: int
  it_color :: "jstring option"
  it_value2 :: "jstring option"
  it_value3 :: "jstring option"
  it_category :: "jstring option"

type_synonym settings = "jstring \<rightharpoonup> item list"

record user =
  us_rowIndex :: nat
  us_username :: jstring
  us_passwordHash :: jstring
  us_displayName :: jstring
  us_role :: jstring

datatype 'r cached = Settings settings | Users "user list" | Records "'r list"

record 'r entry =
  data :: "'r cached option"
  timestamp :: int

text \<open>
  The state the readers work on: the cache, and the number of calls of
  \<open>sheets.spreadsheets.values.get\<close> made so far. A read is one step from state to
  state: the reads considered here follow one another, and none starts while another is
  waiting for the sheet.
\<close>

record 'r state =
  cache :: "string \<rightharpoonup> 'r entry"
  requests :: nat

text \<open>
  The outcome of one call of \<open>sheets.spreadsheets.values.get\<close>: the promise is rejected, or
  it resolves to a response whose \<open>data.values\<close> is an array of rows or is missing.
\<close>

datatype response = Rejected | Resolved "row list option"

text \<open>\<open>response.data.values || []\<close>\<close>

definition valuesOrEmpty :: "row list option \<Rightarrow> row list" where
  "valuesOrEmpty v = (case v of None \<Rightarrow> [] | Some rows \<Rightarrow> rows)"

text \<open>
  The test of every cached read,
  \<open>this.cache[cacheKey] && this.cache[cacheKey].data &&
     (now - this.cache[cacheKey].timestamp < this.CACHE_DURATION)\<close>,
  giving the cached data when it holds.
\<close>

definition cacheHit :: "int \<Rightarrow> int \<Rightarrow> 'r entry option \<Rightarrow> 'r cached option" where
  "cacheHit CACHE_DURATION now e =
     (case e of
        None \<Rightarrow> None
      | Some ent \<Rightarrow>
          (case data ent of
             None \<Rightarrow> None
           | Some d \<Rightarrow> if now - timestamp ent < CACHE_DURATION then Some d else None))"

definition called :: "'r state \<Rightarrow> 'r state" where
  "called st = st\<lparr>requests := requests st + 1\<rparr>"

definition store :: "string \<Rightarrow> 'r cached \<Rightarrow> int \<Rightarrow> 'r state \<Rightarrow> 'r state" where
  "store cacheKey d now st =
     st\<lparr>cache := (cache st)(cacheKey \<mapsto> \<lparr>data = Some d, timestamp = now\<rparr>)\<rparr>"


section \<open>data/system-reader.js\<close>

text \<open>The settings every configuration starts from.\<close>

definition defaultEventTypes :: "item list" where
  "defaultEventTypes =
     [\<lparr>it_value = str ''general'', it_note = [0x4E00, 0x822C], it_order = 1,
        it_color = Some (str ''#6c757d''), it_value2 = None, it_value3 = None, it_category = None\<rparr>,
      \<lparr>it_value = str ''iot'', it_note = str ''IOT'', it_order = 2,
        it_color = Some (str ''#007bff''), it_value2 = None, it_value3 = None, it_category = None\<rparr>,
      \<lparr>it_value = str ''dt'', it_note = str ''DT'', it_order = 3,
        it_color = Some (str ''#28a745''), it_value2 = None, it_value3 = None, it_category = None\<rparr>,
      \<lparr>it_value = str ''dx'', it_note = str ''DX'', it_order = 4,
        it_color = Some (str ''#ffc107''), it_value2 = None, it_value3 = None, it_category = None\<rparr>,
      \<lparr>it_value = str ''legacy'', it_note = [0x820A, 0x4E8B, 0x4EF6], it_order = 5,
        it_color = Some (str ''#dc3545''), it_value2 = None, it_value3 = None, it_category = None\<rparr>]"

definition initialSettings :: settings where
  "initialSettings =
     [[0x4E8B, 0x4EF6, 0x985E, 0x578B] \<mapsto> defaultEventTypes,
      [0x65E5, 0x66C6, 0x7BE9, 0x9078, 0x898F, 0x5247] \<mapsto> []]"

text \<open>\<open>x || null\<close> and \<open>x || d\<close> on a cell that may be missing.\<close>

definition orNull :: "jstring \<Rightarrow> jstring option" where
  "orNull s = (if s = [] then None else Some s)"

definition orElse :: "jstring \<Rightarrow> jstring \<Rightarrow> jstring" where
  "orElse s d = (if s = [] then d else s)"

text \<open>
  \<open>parseInt(order) || 99\<close>. \<open>parseInt\<close> is the engine's and a parameter here, \<open>None\<close>
  being \<open>NaN\<close>; a missing cell is \<open>undefined\<close>, which \<open>parseInt\<close> takes to \<open>NaN\<close>.
\<close>

definition orderOf :: "(jstring \<Rightarrow> int option) \<Rightarrow> row \<Rightarrow> int" where
  "orderOf parseInt r =
     (if 2 < length r then
        (case parseInt (r ! 2) of None \<Rightarrow> 99 | Some n \<Rightarrow> if n = 0 then 99 else n)
      else 99)"

text \<open>\<open>exists.note = ...; exists.order = ...\<close> on the first element whose value is the item.\<close>

fun updateFirst :: "jstring \<Rightarrow> jstring \<Rightarrow> int \<Rightarrow> item list \<Rightarrow> item list" where
  "updateFirst v n ord [] = []"
| "updateFirst v n ord (i # is) =
     (if it_value i = v then i\<lparr>it_note := n, it_order := ord\<rparr> # is
      else i # updateFirst v n ord is)"

text \<open>
  \<open>settings\<close> is a plain object, so \<open>settings[type]\<close> also finds what the object
  inherits from \<open>Object.prototype\<close>: for a type of one of the names below it is a
  function (or the prototype itself), which is truthy and has no \<open>find\<close>, and
  \<open>settings[type].find(...)\<close> throws a \<open>TypeError\<close>.
\<close>

definition objectPrototypeNames :: "jstring list" where
  "objectPrototypeNames =
     [str ''constructor'', str ''hasOwnProperty'', str ''isPrototypeOf'',
      str ''propertyIsEnumerable'', str ''toLocaleString'', str ''toString'', str ''valueOf'',
      str ''__proto__'', str ''__defineGetter__'', str ''__defineSetter__'',
      str ''__lookupGetter__'', str ''__lookupSetter__'']"

text \<open>
  The body of the \<open>forEach\<close> over the rows below the header; \<open>None\<close> is the
  \<open>TypeError\<close>, which ends the loop.
\<close>

definition addConfigRow ::
  "(jstring \<Rightarrow> int option) \<Rightarrow> settings \<Rightarrow> row \<Rightarrow> settings option" where
  "addConfigRow parseInt settings r =
     (let type = cell r 0; itm = cell r 1; enabled = cell r 3; note = cell r 4 in
      if enabled = str ''TRUE'' \<and> type \<noteq> [] \<and> itm \<noteq> [] then
        if type \<in> set objectPrototypeNames then None
        else
          (let existing = (case settings type of None \<Rightarrow> [] | Some l \<Rightarrow> l) in
           if \<exists>i \<in> set existing. it_value i = itm then
             Some (settings(type \<mapsto>
               updateFirst itm (orElse note itm) (orderOf parseInt r) existing))
           else
             Some (settings(type \<mapsto> existing @
               [\<lparr>it_value = itm, it_note = orElse note itm, it_order = orderOf parseInt r,
                 it_color = orNull (cell r 5), it_value2 = orNull (cell r 6),
                 it_value3 = orNull (cell r 7),
                 it_category = Some (orElse (cell r 8) [0x5176, 0x4ED6])\<rparr>])))
      else Some settings)"

fun addConfigRows ::
  "(jstring \<Rightarrow> int option) \<Rightarrow> settings \<Rightarrow> row list \<Rightarrow> settings option" where
  "addConfigRows parseInt settings [] = Some settings"
| "addConfigRows parseInt settings (r # rs) =
     (case addConfigRow parseInt settings r of
        None \<Rightarrow> None
      | Some settings' \<Rightarrow> addConfigRows parseInt settings' rs)"

definition byOrder :: "item comparator" where
  "byOrder a b = Some (it_order a - it_order b)"

text \<open>What the \<open>try\<close> block builds from the rows, if nothing is thrown.\<close>

definition buildSettings :: "(jstring \<Rightarrow> int option) \<Rightarrow> row list \<Rightarrow> settings option" where
  "buildSettings parseInt rows =
     (case (if length rows > 1 then addConfigRows parseInt initialSettings (tl rows)
            else Some initialSettings) of
        None \<Rightarrow> None
      | Some settings \<Rightarrow> Some (\<lambda>type. map_option (js_sort byOrder) (settings type)))"

text \<open>
  \<open>getSystemConfig()\<close>. \<open>DEFAULT_SETTINGS\<close> is \<open>this.config.DEFAULT_SETTINGS\<close>, which the
  configuration may leave undefined; \<open>now\<close> is \<open>Date.now()\<close> and \<open>response\<close> is what the
  sheet answers if it is asked. The \<open>catch\<close> branch takes a rejected request and a
  \<open>TypeError\<close> of the row loop alike: it returns the default and stores nothing.
\<close>

definition getSystemConfig ::
  "int \<Rightarrow> settings option \<Rightarrow> (jstring \<Rightarrow> int option) \<Rightarrow> response \<Rightarrow> int \<Rightarrow> 'r state
     \<Rightarrow> 'r cached \<times> 'r state" where
  "getSystemConfig CACHE_DURATION DEFAULT_SETTINGS parseInt response now st =
     (case cacheHit CACHE_DURATION now (cache st ''systemConfig'') of
        Some d \<Rightarrow> (d, st)
      | None \<Rightarrow>
          (case response of
             Resolved values \<Rightarrow>
               (case buildSettings parseInt (valuesOrEmpty values) of
                  Some settings \<Rightarrow>
                    (Settings settings, store ''systemConfig'' (Settings settings) now (called st))
                | None \<Rightarrow>
                    (Settings (case DEFAULT_SETTINGS of Some d \<Rightarrow> d | None \<Rightarrow> Map.empty),
                     called st))
           | Rejected \<Rightarrow>
               (Settings (case DEFAULT_SETTINGS of Some d \<Rightarrow> d | None \<Rightarrow> Map.empty), called st)))"

definition users_rowParser :: "(jstring \<Rightarrow> jstring) \<Rightarrow> row \<Rightarrow> nat \<Rightarrow> user" where
  "users_rowParser toLowerCase r index =
     \<lparr> us_rowIndex = index + 1,
       us_username = trim (cell r 0),
       us_passwordHash = trim (cell r 1),
       us_displayName = trim (cell r 2),
       us_role = (if cell r 3 \<noteq> [] then toLowerCase (trim (cell r 3)) else str ''sales'') \<rparr>"

definition getUsers ::
  "(jstring \<Rightarrow> jstring) \<Rightarrow> int \<Rightarrow> response \<Rightarrow> int \<Rightarrow> 'r state \<Rightarrow> 'r cached \<times> 'r state" where
  "getUsers toLowerCase CACHE_DURATION response now st =
     (case cacheHit CACHE_DURATION now (cache st ''users'') of
        Some d \<Rightarrow> (d, st)
      | None \<Rightarrow>
          (case response of
             Resolved values \<Rightarrow>
               (let rows = valuesOrEmpty values;
                    allUsers = filter (\<lambda>u. us_username u \<noteq> [] \<and> us_passwordHash u \<noteq> [])
                                 (mapIndexed (users_rowParser toLowerCase) rows)
                in (Users allUsers, store ''users'' (Users allUsers) now (called st)))
           | Rejected \<Rightarrow> (Users [], called st)))"


section \<open>data/base-reader.js\<close>

text \<open>
  Modelled from the spec: \<open>BaseReader._fetchAndCache\<close> of data/base-reader.js, which is
  not among the sources. Following the orchestrator of the specification: a present and
  fresh entry is returned unchanged with no request; otherwise the table source is asked,
  every raw row is parsed with its index, the records are sorted when a sorter is supplied,
  the result is stored under the key with the current time and returned; when the request
  fails nothing is stored and the empty sequence is returned.
\<close>

definition fetchAndCache ::
  "int \<Rightarrow> string \<Rightarrow> (row \<Rightarrow> nat \<Rightarrow> 'r) \<Rightarrow> 'r comparator option \<Rightarrow> response \<Rightarrow> int \<Rightarrow> 'r state
     \<Rightarrow> 'r cached \<times> 'r state" where
  "fetchAndCache CACHE_DURATION cacheKey rowParser sorter response now st =
     (case cacheHit CACHE_DURATION now (cache st cacheKey) of
        Some d \<Rightarrow> (d, st)
      | None \<Rightarrow>
          (case response of
             Resolved values \<Rightarrow>
               (let parsed = mapIndexed rowParser (valuesOrEmpty values);
                    sorted = (case sorter of None \<Rightarrow> parsed | Some cmp \<Rightarrow> js_sort cmp parsed)
                in (Records sorted, store cacheKey (Records sorted) now (called st)))
           | Rejected \<Rightarrow> (Records [], called st)))"

text \<open>
  Modelled from the spec: \<open>BaseReader.invalidateCache\<close> of data/base-reader.js, which is
  not among the sources. Following the cache store of the specification: the entry of the
  key is removed, and \<open>null\<close> (here \<open>None\<close>) removes all entries.
\<close>

definition invalidateCache :: "string option \<Rightarrow> 'r state \<Rightarrow> 'r state" where
  "invalidateCache key st =
     (case key of
        None \<Rightarrow> st\<lparr>cache := Map.empty\<rparr>
      | Some k \<Rightarrow> st\<lparr>cache := (cache st)(k := None)\<rparr>)"


section \<open>data/contact-reader.js\<close>

text \<open>
  The column indices \<open>config.CONTACT_FIELDS\<close> and \<open>config.OPP_CONTACT_LINK_FIELDS\<close> come
  from the configuration module; the readers are parameterised by them.
\<close>

record contact_fields =
  CF_TIME :: nat
  CF_NAME :: nat
  CF_COMPANY :: nat
  CF_POSITION :: nat
  CF_DEPARTMENT :: nat
  CF_PHONE :: nat
  CF_MOBILE :: nat
  CF_EMAIL :: nat
  CF_WEBSITE :: nat
  CF_ADDRESS :: nat
  CF_CONFIDENCE :: nat
  CF_STATUS :: nat
  CF_DRIVE_LINK :: nat
  CF_LINE_USER_ID :: nat
  CF_USER_NICKNAME :: nat

record link_fields =
  LF_LINK_ID :: nat
  LF_OPPORTUNITY_ID :: nat
  LF_CONTACT_ID :: nat
  LF_CREATE_TIME :: nat
  LF_STATUS :: nat
  LF_CREATOR :: nat

text \<open>The record built by the row parser of \<open>getContacts\<close> (a scanned business card).\<close>

record card =
  pc_rowIndex :: nat
  pc_createdTime :: jstring
  pc_name :: jstring
  pc_company :: jstring
  pc_position :: jstring
  pc_department :: jstring
  pc_phone :: jstring
  pc_mobile :: jstring
  pc_email :: jstring
  pc_website :: jstring
  pc_address :: jstring
  pc_confidence :: jstring
  pc_status :: jstring
  pc_driveLink :: jstring
  pc_cardImage :: jstring
  pc_lineUserId :: jstring
  pc_userNickname :: jstring

text \<open>The record built by the row parser of \<open>getContactList\<close>.\<close>

record contact =
  ct_contactId :: jstring
  ct_sourceId :: jstring
  ct_name :: jstring
  ct_companyId :: jstring
  ct_department :: jstring
  ct_position :: jstring
  ct_mobile :: jstring
  ct_phone :: jstring
  ct_email :: jstring
  ct_createdTime :: jstring
  ct_lastUpdateTime :: jstring
  ct_creator :: jstring
  ct_lastModifier :: jstring

text \<open>The record built by the row parser of \<open>getAllOppContactLinks\<close>.\<close>

record link =
  lk_linkId :: jstring
  lk_opportunityId :: jstring
  lk_contactId :: jstring
  lk_createTime :: jstring
  lk_status :: jstring
  lk_creator :: jstring

text \<open>
  A company as \<open>CompanyReader.getCompanyList\<close> returns it, with the fields that the
  code below reads. The record is extensible, the other columns of the company sheet being
  carried along untouched.
\<close>

record company =
  companyId :: jstring
  companyName :: jstring
  createdTime :: jstring
  phone :: jstring
  address :: jstring
  county :: jstring
  introduction :: jstring
  companyType :: jstring
  customerStage :: jstring
  engagementRating :: jstring

text \<open>The object returned by \<open>getLinkedContacts\<close> for each linked contact.\<close>

record linked =
  en_contactId :: jstring
  en_sourceId :: jstring
  en_name :: jstring
  en_companyId :: jstring
  en_department :: jstring
  en_position :: jstring
  en_mobile :: jstring
  en_phone :: jstring
  en_email :: jstring
  en_companyName :: jstring
  en_driveLink :: jstring

text \<open>\<open>_normalizeKey(str) = String(str).toLowerCase().trim()\<close>\<close>

definition normalizeKey :: "(jstring \<Rightarrow> jstring) \<Rightarrow> jstring \<Rightarrow> jstring" where
  "normalizeKey toLowerCase s = trim (toLowerCase s)"

definition contacts_rowParser :: "contact_fields \<Rightarrow> row \<Rightarrow> nat \<Rightarrow> card" where
  "contacts_rowParser F r index =
     (let driveLink = cell r (CF_DRIVE_LINK F) in
      \<lparr> pc_rowIndex = index + 2,
        pc_createdTime = cell r (CF_TIME F),
        pc_name = cell r (CF_NAME F),
        pc_company = cell r (CF_COMPANY F),
        pc_position = cell r (CF_POSITION F),
        pc_department = cell r (CF_DEPARTMENT F),
        pc_phone = cell r (CF_PHONE F),
        pc_mobile = cell r (CF_MOBILE F),
        pc_email = cell r (CF_EMAIL F),
        pc_website = cell r (CF_WEBSITE F),
        pc_address = cell r (CF_ADDRESS F),
        pc_confidence = cell r (CF_CONFIDENCE F),
        pc_status = cell r (CF_STATUS F),
        pc_driveLink = driveLink,
        pc_cardImage = driveLink,
        pc_lineUserId = cell r (CF_LINE_USER_ID F),
        pc_userNickname = cell r (CF_USER_NICKNAME F) \<rparr>)"


definition links_rowParser :: "link_fields \<Rightarrow> row \<Rightarrow> link" where
  "links_rowParser F r =
     \<lparr> lk_linkId = cell r (LF_LINK_ID F),
       lk_opportunityId = cell r (LF_OPPORTUNITY_ID F),
       lk_contactId = cell r (LF_CONTACT_ID F),
       lk_createTime = cell r (LF_CREATE_TIME F),
       lk_status = cell r (LF_STATUS F),
       lk_creator = cell r (LF_CREATOR F) \<rparr>"

text \<open>
  \<open>new Map(allCompanies.map(c => [c.companyId, c.companyName]))\<close>, the company-name
  map of \<open>getLinkedContacts\<close> and of \<open>searchContactList\<close>.
\<close>

definition companyNameMap :: "('a company_scheme) list \<Rightarrow> (jstring \<rightharpoonup> jstring)" where
  "companyNameMap allCompanies =
     Map_of_entries (map (\<lambda>c. (companyId c, companyName c)) allCompanies)"

text \<open>
  The card map of \<open>getLinkedContacts\<close>: a card with a name, a company and a drive link is
  entered under its normalised name and company, unless the key is already there.
\<close>

definition cardKey :: "(jstring \<Rightarrow> jstring) \<Rightarrow> jstring \<Rightarrow> jstring \<Rightarrow> jstring" where
  "cardKey toLowerCase name company =
     normalizeKey toLowerCase name @ str ''|'' @ normalizeKey toLowerCase company"

definition cardMap_add ::
  "(jstring \<Rightarrow> jstring) \<Rightarrow> (jstring \<rightharpoonup> jstring) \<Rightarrow> card \<Rightarrow> (jstring \<rightharpoonup> jstring)" where
  "cardMap_add toLowerCase m pc =
     (if pc_name pc \<noteq> [] \<and> pc_company pc \<noteq> [] \<and> pc_driveLink pc \<noteq> [] then
        (let key = cardKey toLowerCase (pc_name pc) (pc_company pc) in
         if m key = None then m(key \<mapsto> pc_driveLink pc) else m)
      else m)"

definition potentialCardMap ::
  "(jstring \<Rightarrow> jstring) \<Rightarrow> card list \<Rightarrow> (jstring \<rightharpoonup> jstring)" where
  "potentialCardMap toLowerCase allPotentialContacts =
     foldl (cardMap_add toLowerCase) Map.empty allPotentialContacts"

definition enrich ::
  "(jstring \<Rightarrow> jstring) \<Rightarrow> (jstring \<rightharpoonup> jstring) \<Rightarrow> (jstring \<rightharpoonup> jstring) \<Rightarrow> contact
     \<Rightarrow> linked" where
  "enrich toLowerCase nameMap cardMap c =
     (let companyName = getOr nameMap (ct_companyId c) [];
          driveLink = (if ct_name c \<noteq> [] \<and> companyName \<noteq> []
                       then getOr cardMap (cardKey toLowerCase (ct_name c) companyName) []
                       else [])
      in \<lparr> en_contactId = ct_contactId c, en_sourceId = ct_sourceId c, en_name = ct_name c,
           en_companyId = ct_companyId c, en_department = ct_department c,
           en_position = ct_position c, en_mobile = ct_mobile c, en_phone = ct_phone c,
           en_email = ct_email c, en_companyName = companyName, en_driveLink = driveLink \<rparr>)"

text \<open>
  \<open>getLinkedContacts(opportunityId)\<close>, after its four reads have returned: the links, the
  contact list, the company list and the cards of \<open>getContacts(9999)\<close>.
\<close>

definition getLinkedContacts ::
  "(jstring \<Rightarrow> jstring) \<Rightarrow> jstring \<Rightarrow> link list \<Rightarrow> contact list \<Rightarrow> ('a company_scheme) list
     \<Rightarrow> card list \<Rightarrow> linked list" where
  "getLinkedContacts toLowerCase opportunityId allLinks allContacts allCompanies
       allPotentialContacts =
     (let linkedContactIds =
            set (map lk_contactId
                   (filter (\<lambda>l. lk_opportunityId l = opportunityId \<and> lk_status l = str ''active'')
                      allLinks))
      in if linkedContactIds = {} then []
         else map (enrich toLowerCase (companyNameMap allCompanies)
                     (potentialCardMap toLowerCase allPotentialContacts))
                (filter (\<lambda>c. ct_contactId c \<in> linkedContactIds) allContacts))"

text \<open>
  The join and the keyword filter of \<open>searchContactList(query, page)\<close>: every contact of the
  list with its company name, the company id standing in when the map has no name for it.
  The pagination that follows slices this list.
\<close>

record joined = contact +
  sc_companyName :: jstring

definition searchContactList_join :: "('a company_scheme) list \<Rightarrow> contact \<Rightarrow> joined" where
  "searchContactList_join allCompanies c =
     contact.extend c
       \<lparr> sc_companyName = getOr (companyNameMap allCompanies) (ct_companyId c) (ct_companyId c) \<rparr>"

definition searchContactList_contacts ::
  "(jstring \<Rightarrow> jstring) \<Rightarrow> jstring \<Rightarrow> contact list \<Rightarrow> ('a company_scheme) list
     \<Rightarrow> joined list" where
  "searchContactList_contacts toLowerCase query allContacts allCompanies =
     (let contacts = map (searchContactList_join allCompanies) allContacts in
      if query \<noteq> [] then
        (let searchTerm = toLowerCase query in
         filter (\<lambda>c. (ct_name c \<noteq> [] \<and> includes_str (toLowerCase (ct_name c)) searchTerm)
                   \<or> (sc_companyName c \<noteq> [] \<and> includes_str (toLowerCase (sc_companyName c)) searchTerm))
           contacts)
      else contacts)"


text \<open>
  The sorter of \<open>getContacts\<close>, newest card first. \<open>timeValue s\<close> is the time value of
  \<open>new Date(s)\<close> in milliseconds, \<open>None\<close> for an invalid date; parsing dates is the
  engine's, and the readers are parameterised by it.
\<close>

definition contacts_sorter :: "(jstring \<Rightarrow> int option) \<Rightarrow> card comparator" where
  "contacts_sorter timeValue a b =
     (let dateA = timeValue (pc_createdTime a); dateB = timeValue (pc_createdTime b) in
      case dateB of
        None \<Rightarrow> Some (- 1)
      | Some tb \<Rightarrow> (case dateA of None \<Rightarrow> Some 1 | Some ta \<Rightarrow> Some (tb - ta)))"

text \<open>
  \<open>allData.slice(0, limit)\<close> on what the cache gave: an array is cut to its first
  \<open>limit\<close> elements, and an object that is no array has no \<open>slice\<close>.
\<close>

datatype error = TypeError

definition slice0 :: "nat \<Rightarrow> 'r cached \<Rightarrow> error + 'r cached" where
  "slice0 limit allData =
     (case allData of
        Records rs \<Rightarrow> Inr (Records (take limit rs))
      | Users us \<Rightarrow> Inr (Users (take limit us))
      | Settings _ \<Rightarrow> Inl TypeError)"

definition getContacts ::
  "int \<Rightarrow> contact_fields \<Rightarrow> (jstring \<Rightarrow> int option) \<Rightarrow> nat \<Rightarrow> response \<Rightarrow> int \<Rightarrow> card state
     \<Rightarrow> (error + card cached) \<times> card state" where
  "getContacts CACHE_DURATION F timeValue limit response now st =
     (let (allData, st') =
            fetchAndCache CACHE_DURATION ''contacts'' (contacts_rowParser F)
              (Some (contacts_sorter timeValue)) response now st
      in (slice0 limit allData, st'))"


section \<open>data/announcement-reader.js\<close>

record announcement_fields =
  AF_ID :: nat
  AF_TITLE :: nat
  AF_CONTENT :: nat
  AF_CREATOR :: nat
  AF_CREATE_TIME :: nat
  AF_LAST_UPDATE_TIME :: nat
  AF_STATUS :: nat
  AF_IS_PINNED :: nat

record announcement =
  an_rowIndex :: nat
  an_id :: jstring
  an_title :: jstring
  an_content :: jstring
  an_creator :: jstring
  an_createTime :: jstring
  an_lastUpdateTime :: jstring
  an_status :: jstring
  an_isPinned :: bool

definition announcements_rowParser :: "announcement_fields \<Rightarrow> row \<Rightarrow> nat \<Rightarrow> announcement" where
  "announcements_rowParser F r index =
     \<lparr> an_rowIndex = index + 2,
       an_id = cell r (AF_ID F),
       an_title = cell r (AF_TITLE F),
       an_content = cell r (AF_CONTENT F),
       an_creator = cell r (AF_CREATOR F),
       an_createTime = cell r (AF_CREATE_TIME F),
       an_lastUpdateTime = cell r (AF_LAST_UPDATE_TIME F),
       an_status = cell r (AF_STATUS F),
       an_isPinned = (AF_IS_PINNED F < length r \<and> r ! AF_IS_PINNED F = str ''TRUE'') \<rparr>"

text \<open>\<open>new Date(b.lastUpdateTime) - new Date(a.lastUpdateTime)\<close> is \<open>NaN\<close> as soon as one of
  the two dates is invalid.\<close>

definition announcements_sorter :: "(jstring \<Rightarrow> int option) \<Rightarrow> announcement comparator" where
  "announcements_sorter timeValue a b =
     (if an_isPinned a \<and> \<not> an_isPinned b then Some (- 1)
      else if \<not> an_isPinned a \<and> an_isPinned b then Some 1
      else (case timeValue (an_lastUpdateTime b) of
              None \<Rightarrow> None
            | Some tb \<Rightarrow> (case timeValue (an_lastUpdateTime a) of
                           None \<Rightarrow> None
                         | Some ta \<Rightarrow> Some (tb - ta))))"

definition getAnnouncements ::
  "int \<Rightarrow> announcement_fields \<Rightarrow> (jstring \<Rightarrow> int option) \<Rightarrow> response \<Rightarrow> int \<Rightarrow> announcement state
     \<Rightarrow> announcement cached \<times> announcement state" where
  "getAnnouncements CACHE_DURATION F timeValue response now st =
     fetchAndCache CACHE_DURATION ''announcements'' (announcements_rowParser F)
       (Some (announcements_sorter timeValue)) response now st"


text \<open>The sort step of \<open>getAnnouncements\<close>: the parsed records under the sorter.\<close>

definition sortedAnnouncements ::
  "(jstring \<Rightarrow> int option) \<Rightarrow> announcement list \<Rightarrow> announcement list" where
  "sortedAnnouncements timeValue xs = js_sort (announcements_sorter timeValue) xs"

text \<open>
  The order that the sorter describes when both dates are valid, as a key under the
  lexicographic order of pairs: pinned (\<open>False\<close>) before not pinned (\<open>True\<close>), then the
  later date first.
\<close>

definition sortKey :: "(jstring \<Rightarrow> int option) \<Rightarrow> announcement \<Rightarrow> bool \<times> int" where
  "sortKey timeValue a = (\<not> an_isPinned a, - the (timeValue (an_lastUpdateTime a)))"

section \<open>data/weekly-business-reader.js\<close>

text \<open>
  \<open>getWeeklySummary()\<close> keeps no cache of its own: it asks the sheet on every call and
  returns the raw week id and summary of each row below the header, a missing cell being
  \<open>undefined\<close>. This is the later of the two copies of the reader in the sources; the
  earlier copy kept the summary in a field \<open>summaryCache\<close> of the reader, outside the
  shared cache, and its \<open>catch\<close> branch returned the empty array without touching that
  field.
\<close>

record weekly_raw =
  weekId :: "jstring option"
  summaryContent :: "jstring option"

definition cellOpt :: "row \<Rightarrow> nat \<Rightarrow> jstring option" where
  "cellOpt r i = (if i < length r then Some (r ! i) else None)"

definition getWeeklySummary :: "response \<Rightarrow> 'r state \<Rightarrow> weekly_raw list \<times> 'r state" where
  "getWeeklySummary response st =
     (case response of
        Resolved values \<Rightarrow>
          (let rows = valuesOrEmpty values in
           if length rows \<le> 1 then ([], called st)
           else (map (\<lambda>r. \<lparr>weekId = cellOpt r 0, summaryContent = cellOpt r 4\<rparr>) (tl rows),
                 called st))
      | Rejected \<Rightarrow> ([], called st))"

text \<open>\<open>WeeklyBusinessReader.invalidateCache()\<close> passes its own key to the base reader.\<close>

definition weekly_invalidateCache :: "'r state \<Rightarrow> 'r state" where
  "weekly_invalidateCache st = invalidateCache (Some ''weeklyBusiness'') st"


section \<open>services/company-service.js\<close>

text \<open>
  \<open>s.replace(re, '')\<close> for a global regular expression \<open>re\<close>, given by the function
  that tells how many units \<open>re\<close> matches at the start of a string, if it matches there.
  The scan goes from left to right and resumes behind each match.
\<close>

function stripMatches :: "(jstring \<Rightarrow> nat option) \<Rightarrow> jstring \<Rightarrow> jstring" where
  "stripMatches m [] = []"
| "stripMatches m (c # cs) =
     (case m (c # cs) of
        Some (Suc n) \<Rightarrow> stripMatches m (drop n cs)
      | _ \<Rightarrow> c # stripMatches m cs)"
  by pat_completeness auto
termination
  by (relation "measure (\<lambda>(m, s). length s)") auto

text \<open>
  The three company suffixes of the alternation in \<open>_normalizeCompanyName\<close>, by their
  code units: the six units U+80A1 U+4EFD U+6709 U+9650 U+516C U+53F8, their last four and
  their last two. The alternation tries them in this order.
\<close>

definition suffix6 :: jstring where
  "suffix6 = [0x80A1, 0x4EFD, 0x6709, 0x9650, 0x516C, 0x53F8]"

definition suffix4 :: jstring where
  "suffix4 = [0x6709, 0x9650, 0x516C, 0x53F8]"

definition suffix2 :: jstring where
  "suffix2 = [0x516C, 0x53F8]"

definition matchSuffix :: "jstring \<Rightarrow> nat option" where
  "matchSuffix s =
     (if prefix suffix6 s then Some 6
      else if prefix suffix4 s then Some 4
      else if prefix suffix2 s then Some 2
      else None)"

text \<open>
  \<open>/\(.*\)/\<close>: an opening parenthesis, as many units other than line terminators as
  possible, and a closing parenthesis; so the match ends at the last closing parenthesis
  before the next line terminator.
\<close>

definition matchParens :: "jstring \<Rightarrow> nat option" where
  "matchParens s =
     (case s of
        [] \<Rightarrow> None
      | c # cs \<Rightarrow>
          if c = 0x28 then
            (let run = takeWhile (\<lambda>u. \<not> isLineTerminator u) cs in
             if 0x29 \<in> set run
             then Some (Suc (length run - length (takeWhile (\<lambda>u. u \<noteq> 0x29) (rev run))))
             else None)
          else None)"

text \<open>\<open>_normalizeCompanyName(name)\<close> on a string.\<close>

definition normalizeCompanyName :: "(jstring \<Rightarrow> jstring) \<Rightarrow> jstring \<Rightarrow> jstring" where
  "normalizeCompanyName toLowerCase name =
     (if name = [] then []
      else trim (stripMatches matchParens (stripMatches matchSuffix (trim (toLowerCase name)))))"

text \<open>For the proofs: the regular expression given by \<open>m\<close> matches at no position of \<open>s\<close>.\<close>

definition noMatch :: "(jstring \<Rightarrow> nat option) \<Rightarrow> jstring \<Rightarrow> bool" where
  "noMatch m s = (\<forall>u. suffix u s \<longrightarrow> m u = None)"

text \<open>
  The interactions and the event logs as \<open>getCompanyListWithActivity\<close> reads them. The
  interaction reader sets \<open>interactionTime\<close>; \<open>date\<close> is read as a second choice and may be
  missing.
\<close>

record interaction =
  in_companyId :: jstring
  in_interactionTime :: jstring
  in_date :: "jstring option"

record eventLog =
  ev_companyId :: jstring
  ev_createdTime :: jstring

record filters =
  f_q :: jstring
  f_type :: jstring
  f_stage :: jstring
  f_rating :: jstring

text \<open>Step 1: the filters; an empty string is a filter that was not given.\<close>

definition applyFilters ::
  "(jstring \<Rightarrow> jstring) \<Rightarrow> filters \<Rightarrow> ('a company_scheme) list \<Rightarrow> ('a company_scheme) list" where
  "applyFilters toLowerCase fs companiesRaw =
     (let c1 = (if f_q fs \<noteq> [] then
                  (let q = trim (toLowerCase (f_q fs)) in
                   filter (\<lambda>c. includes_str (toLowerCase (companyName c)) q
                             \<or> includes_str (phone c) q
                             \<or> includes_str (toLowerCase (address c)) q
                             \<or> includes_str (toLowerCase (county c)) q
                             \<or> includes_str (toLowerCase (introduction c)) q) companiesRaw)
                else companiesRaw);
          c2 = (if f_type fs \<noteq> [] \<and> f_type fs \<noteq> str ''all''
                then filter (\<lambda>c. companyType c = f_type fs) c1 else c1);
          c3 = (if f_stage fs \<noteq> [] \<and> f_stage fs \<noteq> str ''all''
                then filter (\<lambda>c. customerStage c = f_stage fs) c2 else c2)
      in if f_rating fs \<noteq> [] \<and> f_rating fs \<noteq> str ''all''
         then filter (\<lambda>c. engagementRating c = f_rating fs) c3 else c3)"

text \<open>Step 2: \<open>updateActivity(companyId, dateStr)\<close> on the map of last activities.\<close>

definition updateActivity ::
  "(jstring \<Rightarrow> int option) \<Rightarrow> (jstring \<rightharpoonup> int) \<Rightarrow> jstring \<Rightarrow> jstring option \<Rightarrow> (jstring \<rightharpoonup> int)" where
  "updateActivity timeValue lastActivityMap cid dateStr =
     (case dateStr of
        None \<Rightarrow> lastActivityMap
      | Some d \<Rightarrow>
          if cid = [] \<or> d = [] then lastActivityMap
          else (case timeValue d of
                  None \<Rightarrow> lastActivityMap
                | Some ts \<Rightarrow>
                    (let current = (case lastActivityMap cid of None \<Rightarrow> 0 | Some t \<Rightarrow> t) in
                     if ts > current then lastActivityMap(cid \<mapsto> ts) else lastActivityMap)))"

text \<open>\<open>item.interactionTime || item.date\<close>\<close>

definition interactionDate :: "interaction \<Rightarrow> jstring option" where
  "interactionDate i = (if in_interactionTime i \<noteq> [] then Some (in_interactionTime i) else in_date i)"

definition activityMap ::
  "(jstring \<Rightarrow> int option) \<Rightarrow> interaction list \<Rightarrow> eventLog list \<Rightarrow> (jstring \<rightharpoonup> int)" where
  "activityMap timeValue interactions eventLogs =
     foldl (\<lambda>m e. updateActivity timeValue m (ev_companyId e) (Some (ev_createdTime e)))
       (foldl (\<lambda>m i. updateActivity timeValue m (in_companyId i) (interactionDate i))
          Map.empty interactions)
       eventLogs"

text \<open>
  The time value of one event, when it has one: the date string is there, is not empty and
  is a valid date. \<open>contributing\<close> lists the time values of the events of a company, over
  the interactions and then the event logs; an event whose company id is empty belongs to
  no company.
\<close>

definition eventTime :: "(jstring \<Rightarrow> int option) \<Rightarrow> jstring option \<Rightarrow> int option" where
  "eventTime timeValue dateStr =
     (case dateStr of None \<Rightarrow> None | Some d \<Rightarrow> if d = [] then None else timeValue d)"

definition contributing ::
  "(jstring \<Rightarrow> int option) \<Rightarrow> interaction list \<Rightarrow> eventLog list \<Rightarrow> jstring \<Rightarrow> int list" where
  "contributing timeValue interactions eventLogs cid =
     (if cid = [] then []
      else List.map_filter
             (\<lambda>i. if in_companyId i = cid then eventTime timeValue (interactionDate i) else None)
             interactions
         @ List.map_filter
             (\<lambda>e. if ev_companyId e = cid then eventTime timeValue (Some (ev_createdTime e))
                  else None)
             eventLogs)"

text \<open>
  For the proofs: the value that \<open>updateActivity\<close> compares with, and the entry of a
  company after further time values have been offered to the map.
\<close>

definition current :: "(jstring \<rightharpoonup> int) \<Rightarrow> jstring \<Rightarrow> int" where
  "current m cid = (case m cid of None \<Rightarrow> 0 | Some t \<Rightarrow> t)"

definition raised :: "(jstring \<rightharpoonup> int) \<Rightarrow> jstring \<Rightarrow> int list \<Rightarrow> int option" where
  "raised m cid ts = (if fold max ts (current m cid) > current m cid
                      then Some (fold max ts (current m cid)) else m cid)"

text \<open>
  Step 3: the last activity of one company, with the creation time as the fallback. A time
  value of \<open>0\<close> is falsy, like a missing one.
\<close>

definition lastTsOf :: "(jstring \<Rightarrow> int option) \<Rightarrow> (jstring \<rightharpoonup> int) \<Rightarrow> 'a company_scheme \<Rightarrow> int option" where
  "lastTsOf timeValue lastActivityMap c =
     (let lastTs = lastActivityMap (companyId c) in
      if (lastTs = None \<or> lastTs = Some 0) \<and> createdTime c \<noteq> [] then
        (case timeValue (createdTime c) of None \<Rightarrow> lastTs | Some createdTs \<Rightarrow> Some createdTs)
      else lastTs)"

record 'a scored =
  sc_company :: "'a company_scheme"
  sc_lastActivity :: "jstring option"
  sc_sortTs :: int

record 'a listed =
  li_company :: "'a company_scheme"
  lastActivity :: "jstring option"

definition withActivity ::
  "(jstring \<Rightarrow> int option) \<Rightarrow> (int \<Rightarrow> jstring) \<Rightarrow> (jstring \<rightharpoonup> int) \<Rightarrow> 'a company_scheme \<Rightarrow> 'a scored" where
  "withActivity timeValue toISOString lastActivityMap c =
     (let lastTs = lastTsOf timeValue lastActivityMap c in
      \<lparr> sc_company = c,
        sc_lastActivity = (case lastTs of
                             None \<Rightarrow> None
                           | Some t \<Rightarrow> if t = 0 then None else Some (toISOString t)),
        sc_sortTs = (case lastTs of None \<Rightarrow> 0 | Some t \<Rightarrow> t) \<rparr>)"

definition bySortTs :: "'a scored comparator" where
  "bySortTs a b = Some (sc_sortTs b - sc_sortTs a)"

text \<open>
  \<open>getCompanyListWithActivity(filters)\<close>, after its three reads have returned.
  \<open>toISOString t\<close> is \<open>new Date(t).toISOString()\<close>. Each result is the company with its
  \<open>lastActivity\<close>, the sort key being dropped again.
\<close>

definition getCompanyListWithActivity ::
  "(jstring \<Rightarrow> jstring) \<Rightarrow> (jstring \<Rightarrow> int option) \<Rightarrow> (int \<Rightarrow> jstring) \<Rightarrow> filters
     \<Rightarrow> ('a company_scheme) list \<Rightarrow> interaction list \<Rightarrow> eventLog list \<Rightarrow> 'a listed list" where
  "getCompanyListWithActivity toLowerCase timeValue toISOString fs companiesRaw interactions
       eventLogs =
     (let companies = applyFilters toLowerCase fs companiesRaw;
          lastActivityMap = activityMap timeValue interactions eventLogs;
          result = map (withActivity timeValue toISOString lastActivityMap) companies
      in map (\<lambda>r. \<lparr>li_company = sc_company r, lastActivity = sc_lastActivity r\<rparr>)
           (js_sort bySortTs result))"


section \<open>The common shape of the cached reads\<close>

text \<open>
  \<open>getUsers\<close>, \<open>getSystemConfig\<close> and \<open>_fetchAndCache\<close> differ in the key, in what they
  build from the rows (\<open>None\<close> when building throws) and in what they return when the
  request or the building fails. The proofs below work on this common shape, which each of
  the three is shown to be an instance of.
\<close>

definition cachedRead ::
  "int \<Rightarrow> string \<Rightarrow> (row list option \<Rightarrow> 'r cached option) \<Rightarrow> 'r cached \<Rightarrow> response \<Rightarrow> int
     \<Rightarrow> 'r state \<Rightarrow> 'r cached \<times> 'r state" where
  "cachedRead CACHE_DURATION cacheKey build fallback response now st =
     (case cacheHit CACHE_DURATION now (cache st cacheKey) of
        Some d \<Rightarrow> (d, st)
      | None \<Rightarrow>
          (case response of
             Resolved values \<Rightarrow>
               (case build values of
                  Some d \<Rightarrow> (d, store cacheKey d now (called st))
                | None \<Rightarrow> (fallback, called st))
           | Rejected \<Rightarrow> (fallback, called st)))"

text \<open>The full sequence of cards that \<open>getContacts\<close> fetches: every row parsed, then sorted.\<close>

definition allContacts :: "contact_fields \<Rightarrow> (jstring \<Rightarrow> int option) \<Rightarrow> row list option \<Rightarrow> card list" where
  "allContacts F timeValue values =
     js_sort (contacts_sorter timeValue) (mapIndexed (contacts_rowParser F) (valuesOrEmpty values))"


section \<open>Example data\<close>

text \<open>The values at which the theorems below are instantiated.\<close>

text \<open>
  \<open>String.prototype.toLowerCase\<close> on the strings of the examples. Their units are Basic
  Latin, of which \<open>A\<close> to \<open>Z\<close> go to \<open>a\<close> to \<open>z\<close>; or have no case; or are a surrogate
  with no partner next to it, which is kept; or are the pair U+D801 U+DC00, the letter
  U+10400, whose lower case is U+10428, the pair U+D801 U+DC28. It stands for the engine's
  function in the examples only.
\<close>

definition lowerUnit :: "16 word \<Rightarrow> 16 word" where
  "lowerUnit c = (if 0x41 \<le> c \<and> c \<le> 0x5A then c + 0x20 else c)"

fun sampleToLowerCase :: "jstring \<Rightarrow> jstring" where
  "sampleToLowerCase [] = []"
| "sampleToLowerCase [c] = [lowerUnit c]"
| "sampleToLowerCase (c # d # cs) =
     (if c = 0xD801 \<and> d = 0xDC00 then 0xD801 # 0xDC28 # sampleToLowerCase cs
      else lowerUnit c # sampleToLowerCase (d # cs))"

definition emptyState :: "'r state" where
  "emptyState = \<lparr>cache = Map.empty, requests = 0\<rparr>"

definition sampleUserRows :: "row list" where
  "sampleUserRows = [[str ''amy'', str ''h1'', str ''Amy'', str ''Admin'']]"

definition sampleConfigRows :: "row list" where
  "sampleConfigRows =
     [[str ''type'', str ''item'', str ''order'', str ''enabled''],
      [str ''stage'', str ''won'', str ''2'', str ''TRUE'']]"

text \<open>\<open>parseInt\<close> on a string of decimal digits; the examples give it nothing else.\<close>

fun digitsValue :: "int \<Rightarrow> jstring \<Rightarrow> int option" where
  "digitsValue acc [] = Some acc"
| "digitsValue acc (c # cs) =
     (if 0x30 \<le> c \<and> c \<le> 0x39 then digitsValue (10 * acc + (uint c - 48)) cs else None)"

definition parseDigits :: "jstring \<Rightarrow> int option" where
  "parseDigits s = (if s = [] then None else digitsValue 0 s)"

text \<open>
  The time value of \<open>new Date(s)\<close> for the date-only strings of the examples, which
  ECMAScript reads as midnight UTC; the only other string the examples give it is the empty
  one, which is no date.
\<close>

definition sampleTimeValue :: "jstring \<Rightarrow> int option" where
  "sampleTimeValue s =
     (if s = str ''2026-01-01'' then Some 1767225600000
      else if s = str ''2026-01-02'' then Some 1767312000000
      else if s = str ''1969-12-30'' then Some (- 172800000)
      else if s = str ''1969-12-31'' then Some (- 86400000)
      else None)"

text \<open>\<open>new Date(t).toISOString()\<close> for the time values of these dates.\<close>

definition sampleISOString :: "int \<Rightarrow> jstring" where
  "sampleISOString t =
     (if t = 1767225600000 then str ''2026-01-01T00:00:00.000Z''
      else if t = 1767312000000 then str ''2026-01-02T00:00:00.000Z''
      else if t = - 172800000 then str ''1969-12-30T00:00:00.000Z''
      else if t = - 86400000 then str ''1969-12-31T00:00:00.000Z''
      else [])"

definition sampleContactFields :: contact_fields where
  "sampleContactFields =
     \<lparr> CF_TIME = 0, CF_NAME = 1, CF_COMPANY = 2, CF_POSITION = 3, CF_DEPARTMENT = 4,
       CF_PHONE = 5, CF_MOBILE = 6, CF_EMAIL = 7, CF_WEBSITE = 8, CF_ADDRESS = 9,
       CF_CONFIDENCE = 10, CF_STATUS = 11, CF_DRIVE_LINK = 12, CF_LINE_USER_ID = 13,
       CF_USER_NICKNAME = 14 \<rparr>"

text \<open>Three cards, the first and the third created on the same day, the second a day later.\<close>

definition sampleDatedCardRows :: "row list" where
  "sampleDatedCardRows =
     [[str ''2026-01-01'', str ''Alice''],
      [str ''2026-01-02'', str ''Bob''],
      [str ''2026-01-01'', str ''Carol'']]"

definition sampleAnnouncementFields :: announcement_fields where
  "sampleAnnouncementFields =
     \<lparr> AF_ID = 0, AF_TITLE = 1, AF_CONTENT = 2, AF_CREATOR = 3, AF_CREATE_TIME = 4,
       AF_LAST_UPDATE_TIME = 5, AF_STATUS = 6, AF_IS_PINNED = 7 \<rparr>"

definition sampleAnnouncement :: "string \<Rightarrow> bool \<Rightarrow> string \<Rightarrow> announcement" where
  "sampleAnnouncement i pinned updated =
     \<lparr> an_rowIndex = 2, an_id = str i, an_title = [], an_content = [], an_creator = [],
       an_createTime = [], an_lastUpdateTime = str updated, an_status = [],
       an_isPinned = pinned \<rparr>"

definition sampleInteraction :: "string \<Rightarrow> string \<Rightarrow> interaction" where
  "sampleInteraction cid t = \<lparr>in_companyId = str cid, in_interactionTime = str t, in_date = None\<rparr>"

definition noFilters :: filters where
  "noFilters = \<lparr>f_q = [], f_type = [], f_stage = [], f_rating = []\<rparr>"

text \<open>The name \<open>ACME (Taiwan)\<close> followed by the six-unit company suffix.\<close>

definition sampleCompanyName :: jstring where
  "sampleCompanyName = str ''ACME (Taiwan) '' @ suffix6"

definition sampleCompany :: "string \<Rightarrow> string \<Rightarrow> string \<Rightarrow> company" where
  "sampleCompany i n t =
     \<lparr> companyId = str i, companyName = str n, createdTime = str t, phone = [], address = [],
       county = [], introduction = [], companyType = [], customerStage = [],
       engagementRating = [] \<rparr>"

definition sampleContact :: "string \<Rightarrow> string \<Rightarrow> string \<Rightarrow> contact" where
  "sampleContact i n c =
     \<lparr> ct_contactId = str i, ct_sourceId = [], ct_name = str n, ct_companyId = str c,
       ct_department = [], ct_position = [], ct_mobile = [], ct_phone = [], ct_email = [],
       ct_createdTime = [], ct_lastUpdateTime = [], ct_creator = [], ct_lastModifier = [] \<rparr>"

definition sampleLink :: "string \<Rightarrow> string \<Rightarrow> string \<Rightarrow> link" where
  "sampleLink opp c st =
     \<lparr> lk_linkId = [], lk_opportunityId = str opp, lk_contactId = str c, lk_createTime = [],
       lk_status = str st, lk_creator = [] \<rparr>"


section \<open>Properties\<close>

subsection \<open>Lookup maps\<close>

lemma find_app:
  "find P (xs @ ys) = (case find P xs of None \<Rightarrow> find P ys | Some x \<Rightarrow> Some x)"
  by (induction xs) auto

lemma find_map_comp: "find P (map f xs) = map_option f (find (P \<circ> f) xs)"
  by (induction xs) auto

lemma Map_of_entries_find:
  "Map_of_entries es k = map_option snd (find (\<lambda>e. fst e = k) (rev es))"
proof -
  have "foldl (\<lambda>m (k, v). m(k \<mapsto> v)) m0 es k =
        (case find (\<lambda>e. fst e = k) (rev es) of None \<Rightarrow> m0 k | Some e \<Rightarrow> Some (snd e))" for m0
    by (induction es arbitrary: m0) (auto simp: find_app split: option.splits)
  then show ?thesis by (simp add: Map_of_entries_def split: option.splits)
qed

lemma companyNameMap_last:
  "companyNameMap cs k = map_option companyName (find (\<lambda>c. companyId c = k) (rev cs))"
  by (simp add: companyNameMap_def Map_of_entries_find rev_map find_map_comp option.map_comp
      comp_def)

lemma foldl_cardMap_add:
  "foldl (cardMap_add lc) m pcs k =
     (case m k of
        Some v \<Rightarrow> Some v
      | None \<Rightarrow> map_option pc_driveLink
                  (find (\<lambda>pc. pc_name pc \<noteq> [] \<and> pc_company pc \<noteq> [] \<and> pc_driveLink pc \<noteq> []
                              \<and> cardKey lc (pc_name pc) (pc_company pc) = k) pcs))"
  by (induction pcs arbitrary: m) (auto simp: cardMap_add_def Let_def split: option.splits)

text \<open>
  Claim C4, as amended. The card map of \<open>getLinkedContacts\<close> resolves a key to the drive
  link of the first card, in input order, that has a name, a company and a drive link and
  that key; later cards with the key are ignored. The map from company id to company name of
  \<open>getLinkedContacts\<close> and \<open>searchContactList\<close>, built by \<open>new Map(entries)\<close>, resolves an
  id to the name of the last company, in input order, with that id.
\<close>

theorem join_maps_collision:
  "potentialCardMap lc pcs k =
     map_option pc_driveLink
       (find (\<lambda>pc. pc_name pc \<noteq> [] \<and> pc_company pc \<noteq> [] \<and> pc_driveLink pc \<noteq> []
                   \<and> cardKey lc (pc_name pc) (pc_company pc) = k) pcs)
   \<and> companyNameMap cs i = map_option companyName (find (\<lambda>c. companyId c = i) (rev cs))"
  by (simp add: potentialCardMap_def foldl_cardMap_add companyNameMap_last)

text \<open>
  Claim C4 as stated fails for the company-name map: of two companies with the id \<open>C1\<close>,
  \<open>Acme\<close> first and \<open>Beta\<close> second, the map and the join of \<open>searchContactList\<close> give the
  second name.
\<close>

theorem join_maps_first_wins_counterexample:
  "companyId (sampleCompany ''C1'' ''Acme'' []) = companyId (sampleCompany ''C1'' ''Beta'' [])
   \<and> companyNameMap [sampleCompany ''C1'' ''Acme'' [], sampleCompany ''C1'' ''Beta'' []] (str ''C1'')
       = Some (str ''Beta'')
   \<and> companyNameMap [sampleCompany ''C1'' ''Acme'' [], sampleCompany ''C1'' ''Beta'' []] (str ''C1'')
       \<noteq> Some (companyName (sampleCompany ''C1'' ''Acme'' []))
   \<and> map sc_companyName
        (searchContactList_contacts sampleToLowerCase [] [sampleContact ''K1'' ''Ann'' ''C1'']
           [sampleCompany ''C1'' ''Acme'' [], sampleCompany ''C1'' ''Beta'' []])
       = [str ''Beta'']"
  by (simp add: searchContactList_contacts_def searchContactList_join_def contact.extend_def
      getOr_def companyNameMap_def Map_of_entries_def sampleCompany_def sampleContact_def str_def)

subsection \<open>The linked contacts of an opportunity\<close>

text \<open>
  Claim C9. \<open>getLinkedContacts\<close> has no failing branch, and a lookup that finds nothing
  gives an empty value: with no active link for the opportunity the result is the empty
  sequence; a contact whose company id is not in the company map gets the empty company name
  (and with it the empty drive link); a contact whose key is not in the card map gets the
  empty drive link.
\<close>

theorem linked_contacts_join_miss:
  "(filter (\<lambda>l. lk_opportunityId l = oid \<and> lk_status l = str ''active'') links = []
      \<longrightarrow> getLinkedContacts lc oid links cs cos pcs = [])
   \<and> (\<forall>e \<in> set (getLinkedContacts lc oid links cs cos pcs).
        (companyNameMap cos (en_companyId e) = None
           \<longrightarrow> en_companyName e = [] \<and> en_driveLink e = [])
      \<and> (potentialCardMap lc pcs (cardKey lc (en_name e) (en_companyName e)) = None
           \<longrightarrow> en_driveLink e = []))"
  by (auto simp: getLinkedContacts_def enrich_def Let_def getOr_def)

text \<open>
  The theorem at an opportunity with no link, and at an opportunity whose one linked contact
  names a company that the company list does not have.
\<close>

theorem linked_contacts_join_miss_witness:
  "filter (\<lambda>l. lk_opportunityId l = str ''O2'' \<and> lk_status l = str ''active'')
      [sampleLink ''O1'' ''K1'' ''active''] = []
   \<and> getLinkedContacts sampleToLowerCase (str ''O2'') [sampleLink ''O1'' ''K1'' ''active'']
        [sampleContact ''K1'' ''Ann'' ''C9''] [sampleCompany ''C1'' ''Acme'' []] [] = []
   \<and> companyNameMap [sampleCompany ''C1'' ''Acme'' []] (str ''C9'') = None
   \<and> potentialCardMap sampleToLowerCase [] (cardKey sampleToLowerCase (str ''Ann'') []) = None
   \<and> map (\<lambda>e. (en_contactId e, en_companyName e, en_driveLink e))
        (getLinkedContacts sampleToLowerCase (str ''O1'') [sampleLink ''O1'' ''K1'' ''active'']
           [sampleContact ''K1'' ''Ann'' ''C9''] [sampleCompany ''C1'' ''Acme'' []] [])
       = [(str ''K1'', [], [])]"
  using linked_contacts_join_miss [where lc = sampleToLowerCase and oid = "str ''O2''"
      and links = "[sampleLink ''O1'' ''K1'' ''active'']"
      and cs = "[sampleContact ''K1'' ''Ann'' ''C9'']"
      and cos = "[sampleCompany ''C1'' ''Acme'' []]" and pcs = "[]"]
    linked_contacts_join_miss [where lc = sampleToLowerCase and oid = "str ''O1''"
      and links = "[sampleLink ''O1'' ''K1'' ''active'']"
      and cs = "[sampleContact ''K1'' ''Ann'' ''C9'']"
      and cos = "[sampleCompany ''C1'' ''Acme'' []]" and pcs = "[]"]
  by (simp add: getLinkedContacts_def enrich_def Let_def getOr_def companyNameMap_def
      Map_of_entries_def potentialCardMap_def cardMap_add_def sampleCompany_def sampleContact_def sampleLink_def
      str_def)


subsection \<open>Cached reads\<close>

lemma getUsers_cachedRead:
  "getUsers lc D = cachedRead D ''users''
     (\<lambda>v. Some (Users (filter (\<lambda>u. us_username u \<noteq> [] \<and> us_passwordHash u \<noteq> [])
                          (mapIndexed (users_rowParser lc) (valuesOrEmpty v)))))
     (Users [])"
  by (intro ext)
    (simp add: getUsers_def cachedRead_def Let_def split: option.splits response.splits)

lemma getSystemConfig_cachedRead:
  "getSystemConfig D dflt pint = cachedRead D ''systemConfig''
     (\<lambda>v. map_option Settings (buildSettings pint (valuesOrEmpty v)))
     (Settings (case dflt of Some d \<Rightarrow> d | None \<Rightarrow> Map.empty))"
  by (intro ext)
    (simp add: getSystemConfig_def cachedRead_def Let_def split: option.splits response.splits)

lemma fetchAndCache_cachedRead:
  "fetchAndCache D k p srt = cachedRead D k
     (\<lambda>v. Some (Records (case srt of None \<Rightarrow> mapIndexed p (valuesOrEmpty v)
                          | Some cmp \<Rightarrow> js_sort cmp (mapIndexed p (valuesOrEmpty v)))))
     (Records [])"
  by (intro ext)
    (simp add: fetchAndCache_def cachedRead_def Let_def split: option.splits response.splits)

lemma cacheHit_store_same:
  "cacheHit D t (cache (store k d now st) k) = (if t - now < D then Some d else None)"
  by (simp add: cacheHit_def store_def)

lemma cacheHit_mono:
  "cacheHit D t1 e = None \<Longrightarrow> t1 \<le> t2 \<Longrightarrow> cacheHit D t2 e = None"
  by (auto simp: cacheHit_def split: option.splits if_splits)


lemma cache_called [simp]: "cache (called st) = cache st"
  by (simp add: called_def)

lemma requests_called [simp]: "requests (called st) = requests st + 1"
  by (simp add: called_def)

lemma requests_store [simp]: "requests (store k d now st) = requests st"
  by (simp add: store_def)

lemma cachedRead_hit:
  "cacheHit D now (cache st k) = Some d \<Longrightarrow> cachedRead D k bld fb resp now st = (d, st)"
  by (simp add: cachedRead_def)

lemma cachedRead_miss:
  "cacheHit D now (cache st k) = None \<Longrightarrow>
   cachedRead D k bld fb resp now st =
     (case resp of
        Resolved v \<Rightarrow> (case bld v of Some d \<Rightarrow> (d, store k d now (called st))
                                 | None \<Rightarrow> (fb, called st))
      | Rejected \<Rightarrow> (fb, called st))"
  by (simp add: cachedRead_def)








subsection \<open>Invalidation\<close>

lemma cacheHit_invalidated [simp]:
  "cacheHit D now (cache (invalidateCache (Some k) st) k) = None"
  "cacheHit D now (cache (invalidateCache None st) k') = None"
  by (simp_all add: invalidateCache_def cacheHit_def)

lemma requests_invalidated [simp]: "requests (invalidateCache key st) = requests st"
  by (simp add: invalidateCache_def split: option.splits)

lemma cachedRead_requests_miss:
  "cacheHit D now (cache st k) = None \<Longrightarrow>
   requests (snd (cachedRead D k bld fb resp now st)) = requests st + 1"
  by (cases resp) (simp_all add: cachedRead_miss split: option.splits)

text \<open>
  Claim C2. After \<open>invalidateCache(K)\<close> the next read of \<open>K\<close> makes a request, at any
  time \<open>now\<close> and for any window, whatever was cached: for \<open>_fetchAndCache\<close> with any key,
  for \<open>getUsers\<close> and \<open>getSystemConfig\<close> with their keys, and for the weekly reader's own
  \<open>invalidateCache()\<close> with the key \<open>weeklyBusiness\<close>. After \<open>invalidateCache(null)\<close> the
  cache has no entry, and the next read of any key makes a request.
\<close>

theorem invalidation_forces_refresh:
  "requests (snd (fetchAndCache D k p srt resp now (invalidateCache (Some k) st))) = requests st + 1
   \<and> requests (snd (getUsers lc D resp now (invalidateCache (Some ''users'') st))) = requests st + 1
   \<and> requests (snd (getSystemConfig D dflt pint resp now
                      (invalidateCache (Some ''systemConfig'') st))) = requests st + 1
   \<and> requests (snd (fetchAndCache D ''weeklyBusiness'' p srt resp now (weekly_invalidateCache st)))
       = requests st + 1
   \<and> cache (invalidateCache None st) = Map.empty
   \<and> requests (snd (fetchAndCache D k p srt resp now (invalidateCache None st))) = requests st + 1
   \<and> requests (snd (getUsers lc D resp now (invalidateCache None st))) = requests st + 1
   \<and> requests (snd (getSystemConfig D dflt pint resp now (invalidateCache None st)))
       = requests st + 1"
  unfolding getUsers_cachedRead getSystemConfig_cachedRead fetchAndCache_cachedRead
    weekly_invalidateCache_def
  by (simp add: cachedRead_requests_miss) (simp add: invalidateCache_def)

subsection \<open>A request that fails\<close>

lemma cachedRead_after_failure:
  assumes miss: "cacheHit D now (cache st k) = None"
  shows "cachedRead D k bld fb Rejected now st = (fb, st\<lparr>requests := requests st + 1\<rparr>)"
    and "now \<le> now' \<Longrightarrow>
         requests (snd (cachedRead D k bld fb resp' now'
                          (snd (cachedRead D k bld fb Rejected now st)))) = requests st + 2"
proof -
  show first: "cachedRead D k bld fb Rejected now st = (fb, st\<lparr>requests := requests st + 1\<rparr>)"
    using miss by (simp add: cachedRead_miss called_def)
  assume "now \<le> now'"
  with miss have "cacheHit D now' (cache (st\<lparr>requests := requests st + 1\<rparr>) k) = None"
    by (simp add: cacheHit_mono)
  then show "requests (snd (cachedRead D k bld fb resp' now'
                              (snd (cachedRead D k bld fb Rejected now st)))) = requests st + 2"
    unfolding first by (cases resp') (simp_all add: cachedRead_miss split: option.splits)
qed

text \<open>
  Claim C6. A read that reaches the sheet (no fresh entry for its key) and whose request is
  rejected returns the fallback and leaves the cache as it was, with one request counted:
  the empty array for \<open>getUsers\<close>, \<open>DEFAULT_SETTINGS\<close> or else the empty object for
  \<open>getSystemConfig\<close>. The next read, at the same time or later, asks the sheet again,
  whatever it will answer. \<open>getWeeklySummary\<close>, which keeps no cache, returns the empty
  array and asks again on the next call.
\<close>

theorem rejected_request_not_cached:
  "(cacheHit D now (cache st ''users'') = None \<longrightarrow>
      getUsers lc D Rejected now st = (Users [], st\<lparr>requests := requests st + 1\<rparr>)
      \<and> (now \<le> now' \<longrightarrow>
           requests (snd (getUsers lc D resp' now' (snd (getUsers lc D Rejected now st))))
             = requests st + 2))
   \<and> (cacheHit D now (cache st ''systemConfig'') = None \<longrightarrow>
      getSystemConfig D dflt pint Rejected now st
        = (Settings (case dflt of Some d \<Rightarrow> d | None \<Rightarrow> Map.empty),
           st\<lparr>requests := requests st + 1\<rparr>)
      \<and> (now \<le> now' \<longrightarrow>
           requests (snd (getSystemConfig D dflt pint resp' now'
                            (snd (getSystemConfig D dflt pint Rejected now st))))
             = requests st + 2))
   \<and> getWeeklySummary Rejected st = ([], st\<lparr>requests := requests st + 1\<rparr>)
   \<and> requests (snd (getWeeklySummary resp' (snd (getWeeklySummary Rejected st)))) = requests st + 2"
proof (intro conjI impI)
  assume "cacheHit D now (cache st ''users'') = None"
  then show "getUsers lc D Rejected now st = (Users [], st\<lparr>requests := requests st + 1\<rparr>)"
    unfolding getUsers_cachedRead by (rule cachedRead_after_failure)
next
  assume "cacheHit D now (cache st ''users'') = None" "now \<le> now'"
  then show "requests (snd (getUsers lc D resp' now' (snd (getUsers lc D Rejected now st))))
      = requests st + 2"
    unfolding getUsers_cachedRead by (rule cachedRead_after_failure)
next
  assume "cacheHit D now (cache st ''systemConfig'') = None"
  then show "getSystemConfig D dflt pint Rejected now st
        = (Settings (case dflt of Some d \<Rightarrow> d | None \<Rightarrow> Map.empty),
           st\<lparr>requests := requests st + 1\<rparr>)"
    unfolding getSystemConfig_cachedRead by (rule cachedRead_after_failure)
next
  assume "cacheHit D now (cache st ''systemConfig'') = None" "now \<le> now'"
  then show "requests (snd (getSystemConfig D dflt pint resp' now'
                            (snd (getSystemConfig D dflt pint Rejected now st))))
      = requests st + 2"
    unfolding getSystemConfig_cachedRead by (rule cachedRead_after_failure)
next
  show "getWeeklySummary Rejected st = ([], st\<lparr>requests := requests st + 1\<rparr>)"
    by (simp add: getWeeklySummary_def called_def)
next
  show "requests (snd (getWeeklySummary resp' (snd (getWeeklySummary Rejected st))))
      = requests st + 2"
    by (cases resp') (simp_all add: getWeeklySummary_def Let_def)
qed

text \<open>
  The theorem at the empty cache: a rejected read at time 1000, then a read at time 2000
  that the sheet answers.
\<close>

theorem rejected_request_not_cached_witness:
  "cacheHit 300000 1000 (cache (emptyState :: card state) ''users'') = None
   \<and> cacheHit 300000 1000 (cache (emptyState :: card state) ''systemConfig'') = None
   \<and> (1000 :: int) \<le> 2000
   \<and> getUsers sampleToLowerCase 300000 Rejected 1000 (emptyState :: card state)
       = (Users [], \<lparr>cache = Map.empty, requests = 1\<rparr>)
   \<and> requests (snd (getUsers sampleToLowerCase 300000 (Resolved (Some sampleUserRows)) 2000
        (snd (getUsers sampleToLowerCase 300000 Rejected 1000 (emptyState :: card state))))) = 2
   \<and> getSystemConfig 300000 None parseDigits Rejected 1000 (emptyState :: card state)
       = (Settings Map.empty, \<lparr>cache = Map.empty, requests = 1\<rparr>)
   \<and> requests (snd (getSystemConfig 300000 None parseDigits (Resolved (Some sampleConfigRows)) 2000
        (snd (getSystemConfig 300000 None parseDigits Rejected 1000 (emptyState :: card state))))) = 2
   \<and> getWeeklySummary Rejected (emptyState :: card state) = ([], \<lparr>cache = Map.empty, requests = 1\<rparr>)"
proof -
  let ?e = "emptyState :: card state"
  have mu: "cacheHit 300000 1000 (cache ?e ''users'') = None"
    and mc: "cacheHit 300000 1000 (cache ?e ''systemConfig'') = None"
    by (simp_all add: cacheHit_def emptyState_def)
  have le: "(1000 :: int) \<le> 2000" by simp
  have e1: "?e\<lparr>requests := requests ?e + 1\<rparr> = \<lparr>cache = Map.empty, requests = 1\<rparr>"
    and e2: "requests ?e + 2 = 2"
    by (simp_all add: emptyState_def)
  from rejected_request_not_cached [where D = 300000 and now = 1000 and st = ?e and now' = 2000
      and resp' = "Resolved (Some sampleUserRows)" and dflt = None and pint = parseDigits
      and lc = sampleToLowerCase] mu le
  have u: "getUsers sampleToLowerCase 300000 Rejected 1000 ?e = (Users [], ?e\<lparr>requests := requests ?e + 1\<rparr>)"
    "requests (snd (getUsers sampleToLowerCase 300000 (Resolved (Some sampleUserRows)) 2000
        (snd (getUsers sampleToLowerCase 300000 Rejected 1000 ?e)))) = requests ?e + 2"
    "getWeeklySummary Rejected ?e = ([], ?e\<lparr>requests := requests ?e + 1\<rparr>)"
    by blast+
  from rejected_request_not_cached [where D = 300000 and now = 1000 and st = ?e and now' = 2000
      and resp' = "Resolved (Some sampleConfigRows)" and dflt = None and pint = parseDigits
      and lc = sampleToLowerCase] mc le
  have c: "getSystemConfig 300000 None parseDigits Rejected 1000 ?e
        = (Settings (case None of Some d \<Rightarrow> d | None \<Rightarrow> Map.empty),
           ?e\<lparr>requests := requests ?e + 1\<rparr>)"
    "requests (snd (getSystemConfig 300000 None parseDigits (Resolved (Some sampleConfigRows)) 2000
        (snd (getSystemConfig 300000 None parseDigits Rejected 1000 ?e)))) = requests ?e + 2"
    by blast+
  from mu mc le u c show ?thesis unfolding e1 e2 by simp
qed


subsection \<open>Sorting with a comparator that follows a key\<close>

lemma length_js_insert [simp]: "length (js_insert cmp x ys) = Suc (length ys)"
  by (induction ys) auto

lemma length_js_sort [simp]: "length (js_sort cmp xs) = length xs"
  by (induction xs) (auto simp: js_sort_def)

lemma mset_js_insert [simp]: "mset (js_insert cmp x ys) = add_mset x (mset ys)"
  by (induction ys) auto

lemma mset_js_sort [simp]: "mset (js_sort cmp xs) = mset xs"
  by (induction xs) (auto simp: js_sort_def)

lemma set_js_sort [simp]: "set (js_sort cmp xs) = set xs"
  using mset_js_sort [of cmp xs] by (metis set_mset_mset)

lemma js_insert_insort_key:
  assumes "\<And>y. y \<in> set ys \<Longrightarrow> (sortCompare cmp x y > 0) = (f x > f y)"
  shows "js_insert cmp x ys = insort_key f x ys"
  using assms by (induction ys) (auto simp: not_less)

lemma js_sort_sort_key:
  assumes "\<And>x y. x \<in> set xs \<Longrightarrow> y \<in> set xs \<Longrightarrow> (sortCompare cmp x y > 0) = (f x > f y)"
  shows "js_sort cmp xs = sort_key f xs"
  using assms
proof (induction xs)
  case Nil
  then show ?case by (simp add: js_sort_def)
next
  case (Cons a xs)
  then have IH: "js_sort cmp xs = sort_key f xs" by simp
  have "js_insert cmp a (sort_key f xs) = insort_key f a (sort_key f xs)"
    by (rule js_insert_insort_key) (simp add: Cons.prems)
  with IH show ?case by (simp add: js_sort_def)
qed


subsection \<open>The limit of \<open>getContacts\<close>\<close>

lemma length_mapIndexed [simp]: "length (mapIndexed f xs) = length xs"
  by (simp add: mapIndexed_def)

lemma nth_mapIndexed: "i < length xs \<Longrightarrow> mapIndexed f xs ! i = f (xs ! i) i"
  by (simp add: mapIndexed_def)

lemma contacts_sorter_key:
  assumes "tv (pc_createdTime a) \<noteq> None" "tv (pc_createdTime b) \<noteq> None"
  shows "(sortCompare (contacts_sorter tv) a b > 0)
       = (- the (tv (pc_createdTime a)) > - the (tv (pc_createdTime b)))"
  using assms
  by (auto simp: sortCompare_def contacts_sorter_def Let_def split: option.splits)

lemma allContacts_sort_key:
  assumes "\<forall>c \<in> set (mapIndexed (contacts_rowParser F) (valuesOrEmpty v)).
             tv (pc_createdTime c) \<noteq> None"
  shows "allContacts F tv v
       = sort_key (\<lambda>c. - the (tv (pc_createdTime c)))
           (mapIndexed (contacts_rowParser F) (valuesOrEmpty v))"
  unfolding allContacts_def
  by (rule js_sort_sort_key) (simp add: contacts_sorter_key assms)

lemma allContacts_newest_first:
  assumes "\<forall>c \<in> set (mapIndexed (contacts_rowParser F) (valuesOrEmpty v)).
             tv (pc_createdTime c) \<noteq> None"
  shows "sorted_wrt (\<lambda>a b. the (tv (pc_createdTime b)) \<le> the (tv (pc_createdTime a)))
           (allContacts F tv v)"
proof -
  let ?f = "\<lambda>c. - the (tv (pc_createdTime c))"
  have "sorted (map ?f (allContacts F tv v))"
    unfolding allContacts_sort_key [OF assms] by simp
  then have "sorted_wrt (\<lambda>a b. ?f a \<le> ?f b) (allContacts F tv v)"
    by (simp add: sorted_map)
  then show ?thesis by simp
qed

lemma allContacts_stable:
  assumes "\<forall>c \<in> set (mapIndexed (contacts_rowParser F) (valuesOrEmpty v)).
             tv (pc_createdTime c) \<noteq> None"
  shows "filter (\<lambda>c. tv (pc_createdTime c) = Some t) (allContacts F tv v)
       = filter (\<lambda>c. tv (pc_createdTime c) = Some t)
           (mapIndexed (contacts_rowParser F) (valuesOrEmpty v))"
proof -
  let ?parsed = "mapIndexed (contacts_rowParser F) (valuesOrEmpty v)"
  let ?f = "\<lambda>c. - the (tv (pc_createdTime c))"
  let ?P = "\<lambda>c. tv (pc_createdTime c) = Some t"
  have same: "?P c = (?f c = - t)" if "c \<in> set ?parsed" for c
    using assms that by auto
  have "filter ?P (sort_key ?f ?parsed) = filter (\<lambda>c. ?f c = - t) (sort_key ?f ?parsed)"
    by (rule filter_cong) (simp_all add: same)
  also have "\<dots> = filter (\<lambda>c. ?f c = - t) ?parsed"
    by (rule sort_key_stable)
  also have "\<dots> = filter ?P ?parsed"
    by (rule filter_cong) (simp_all add: same)
  finally show ?thesis
    unfolding allContacts_sort_key [OF assms] .
qed

text \<open>
  Claim C10. A call \<open>getContacts(L)\<close> that fetches (no fresh entry under \<open>contacts\<close>) and
  that the sheet answers with \<open>N\<close> rows returns the first \<open>min L N\<close> records of the
  parsed and sorted sequence, and stores the whole sequence under \<open>contacts\<close>, whatever
  \<open>L\<close> is. A later call within the window, with any limit \<open>L2\<close>, returns the first
  \<open>L2\<close> records of that sequence and leaves the state, and so the number of requests,
  as it is. The sequence holds the parsed records, each as often as the rows give it. When
  every \<open>createdTime\<close> is a valid date the sequence is in the order of the sorter: no
  record comes before one that was created later, and the records of one creation time
  keep the order of their rows; so the records returned are a prefix in sorted order.
\<close>

theorem getContacts_limit_prefix:
  "(cacheHit D now (cache st ''contacts'') = None \<longrightarrow>
     fst (getContacts D F tv L (Resolved v) now st) = Inr (Records (take L (allContacts F tv v)))
     \<and> length (take L (allContacts F tv v)) = min L (length (valuesOrEmpty v))
     \<and> cache (snd (getContacts D F tv L (Resolved v) now st)) ''contacts''
         = Some \<lparr>data = Some (Records (allContacts F tv v)), timestamp = now\<rparr>
     \<and> (now2 - now < D \<longrightarrow>
          getContacts D F tv L2 resp2 now2 (snd (getContacts D F tv L (Resolved v) now st))
            = (Inr (Records (take L2 (allContacts F tv v))),
               snd (getContacts D F tv L (Resolved v) now st))))
   \<and> mset (allContacts F tv v) = mset (mapIndexed (contacts_rowParser F) (valuesOrEmpty v))
   \<and> ((\<forall>c \<in> set (mapIndexed (contacts_rowParser F) (valuesOrEmpty v)).
          tv (pc_createdTime c) \<noteq> None) \<longrightarrow>
        sorted_wrt (\<lambda>a b. the (tv (pc_createdTime b)) \<le> the (tv (pc_createdTime a)))
          (allContacts F tv v)
        \<and> sorted_wrt (\<lambda>a b. the (tv (pc_createdTime b)) \<le> the (tv (pc_createdTime a)))
            (take L (allContacts F tv v))
        \<and> (\<forall>t. filter (\<lambda>c. tv (pc_createdTime c) = Some t) (allContacts F tv v)
               = filter (\<lambda>c. tv (pc_createdTime c) = Some t)
                   (mapIndexed (contacts_rowParser F) (valuesOrEmpty v))))"
proof (intro conjI impI allI)
  let ?full = "allContacts F tv v"
  {
    assume miss: "cacheHit D now (cache st ''contacts'') = None"
    have first: "getContacts D F tv L (Resolved v) now st
        = (Inr (Records (take L ?full)), store ''contacts'' (Records ?full) now (called st))"
      using miss
      by (simp add: getContacts_def fetchAndCache_cachedRead cachedRead_miss slice0_def
          allContacts_def)
    show "fst (getContacts D F tv L (Resolved v) now st) = Inr (Records (take L ?full))"
      unfolding first by simp
    show "length (take L ?full) = min L (length (valuesOrEmpty v))"
      by (simp add: allContacts_def min.commute)
    show "cache (snd (getContacts D F tv L (Resolved v) now st)) ''contacts''
         = Some \<lparr>data = Some (Records ?full), timestamp = now\<rparr>"
      unfolding first by (simp add: store_def)
    assume "now2 - now < D"
    then have "getContacts D F tv L2 resp2 now2
          (store ''contacts'' (Records ?full) now (called st))
        = (Inr (Records (take L2 ?full)), store ''contacts'' (Records ?full) now (called st))"
      by (simp add: getContacts_def fetchAndCache_cachedRead cachedRead_hit cacheHit_store_same
          slice0_def)
    then show "getContacts D F tv L2 resp2 now2 (snd (getContacts D F tv L (Resolved v) now st))
            = (Inr (Records (take L2 ?full)), snd (getContacts D F tv L (Resolved v) now st))"
      unfolding first by simp
  }
  show "mset ?full = mset (mapIndexed (contacts_rowParser F) (valuesOrEmpty v))"
    by (simp add: allContacts_def)
  {
    assume valid: "\<forall>c \<in> set (mapIndexed (contacts_rowParser F) (valuesOrEmpty v)).
                     tv (pc_createdTime c) \<noteq> None"
    then show ordered: "sorted_wrt (\<lambda>a b. the (tv (pc_createdTime b)) \<le> the (tv (pc_createdTime a)))
                          ?full"
      by (rule allContacts_newest_first)
    then show "sorted_wrt (\<lambda>a b. the (tv (pc_createdTime b)) \<le> the (tv (pc_createdTime a)))
                 (take L ?full)"
      by (rule sorted_wrt_take)
    fix t
    from valid show "filter (\<lambda>c. tv (pc_createdTime c) = Some t) ?full
        = filter (\<lambda>c. tv (pc_createdTime c) = Some t)
            (mapIndexed (contacts_rowParser F) (valuesOrEmpty v))"
      by (rule allContacts_stable)
  }
qed

text \<open>
  The theorem at three rows, Alice of 1 January, Bob of 2 January and Carol of 1 January:
  the sorted sequence is Bob, Alice, Carol; with the limit 2 the first call returns Bob and
  Alice, and a call with the limit 3 a second later returns all three from the cache.
\<close>

theorem getContacts_limit_prefix_witness:
  "cacheHit 300000 1000 (cache (emptyState :: card state) ''contacts'') = None
   \<and> (2000 :: int) - 1000 < 300000
   \<and> map (\<lambda>c. sampleTimeValue (pc_createdTime c))
       (mapIndexed (contacts_rowParser sampleContactFields) (valuesOrEmpty (Some sampleDatedCardRows)))
       = [Some 1767225600000, Some 1767312000000, Some 1767225600000]
   \<and> map pc_name (allContacts sampleContactFields sampleTimeValue (Some sampleDatedCardRows))
       = [str ''Bob'', str ''Alice'', str ''Carol'']
   \<and> fst (getContacts 300000 sampleContactFields sampleTimeValue 2
             (Resolved (Some sampleDatedCardRows)) 1000 emptyState)
       = Inr (Records (take 2 (allContacts sampleContactFields sampleTimeValue
                                 (Some sampleDatedCardRows))))
   \<and> getContacts 300000 sampleContactFields sampleTimeValue 3 Rejected 2000
        (snd (getContacts 300000 sampleContactFields sampleTimeValue 2
                (Resolved (Some sampleDatedCardRows)) 1000 emptyState))
       = (Inr (Records (take 3 (allContacts sampleContactFields sampleTimeValue
                                  (Some sampleDatedCardRows)))),
          snd (getContacts 300000 sampleContactFields sampleTimeValue 2
                 (Resolved (Some sampleDatedCardRows)) 1000 emptyState))
   \<and> sorted_wrt (\<lambda>a b. the (sampleTimeValue (pc_createdTime b))
                       \<le> the (sampleTimeValue (pc_createdTime a)))
        (take 2 (allContacts sampleContactFields sampleTimeValue (Some sampleDatedCardRows)))
   \<and> filter (\<lambda>c. sampleTimeValue (pc_createdTime c) = Some 1767225600000)
        (allContacts sampleContactFields sampleTimeValue (Some sampleDatedCardRows))
       = filter (\<lambda>c. sampleTimeValue (pc_createdTime c) = Some 1767225600000)
           (mapIndexed (contacts_rowParser sampleContactFields)
              (valuesOrEmpty (Some sampleDatedCardRows)))"
proof -
  let ?parsed = "mapIndexed (contacts_rowParser sampleContactFields)
                   (valuesOrEmpty (Some sampleDatedCardRows))"
  have miss: "cacheHit 300000 1000 (cache (emptyState :: card state) ''contacts'') = None"
    by (simp add: cacheHit_def emptyState_def)
  have win: "(2000 :: int) - 1000 < 300000" by simp
  have times: "map (\<lambda>c. sampleTimeValue (pc_createdTime c)) ?parsed
       = [Some 1767225600000, Some 1767312000000, Some 1767225600000]"
    by (simp add: contacts_rowParser_def mapIndexed_def valuesOrEmpty_def cell_def
        sampleDatedCardRows_def sampleContactFields_def sampleTimeValue_def str_def Let_def)
  have "\<forall>t \<in> set (map (\<lambda>c. sampleTimeValue (pc_createdTime c)) ?parsed). t \<noteq> None"
    unfolding times by simp
  then have valid: "\<forall>c \<in> set ?parsed. sampleTimeValue (pc_createdTime c) \<noteq> None"
    by simp
  have names: "map pc_name (allContacts sampleContactFields sampleTimeValue
                              (Some sampleDatedCardRows))
       = [str ''Bob'', str ''Alice'', str ''Carol'']"
    by (simp add: allContacts_def js_sort_def sortCompare_def contacts_sorter_def
        contacts_rowParser_def mapIndexed_def valuesOrEmpty_def cell_def sampleDatedCardRows_def
        sampleContactFields_def sampleTimeValue_def str_def Let_def)
  from getContacts_limit_prefix [where D = 300000 and now = 1000 and st = emptyState
      and F = sampleContactFields and tv = sampleTimeValue and L = 2
      and v = "Some sampleDatedCardRows" and ?now2.0 = 2000 and ?L2.0 = 3
      and ?resp2.0 = Rejected]
    miss win valid times names
  show ?thesis by blast
qed


subsection \<open>Row parsers\<close>

lemma an_fields:
  "an_id (announcements_rowParser F r i) = cell r (AF_ID F)"
  "an_title (announcements_rowParser F r i) = cell r (AF_TITLE F)"
  "an_content (announcements_rowParser F r i) = cell r (AF_CONTENT F)"
  "an_creator (announcements_rowParser F r i) = cell r (AF_CREATOR F)"
  "an_createTime (announcements_rowParser F r i) = cell r (AF_CREATE_TIME F)"
  "an_lastUpdateTime (announcements_rowParser F r i) = cell r (AF_LAST_UPDATE_TIME F)"
  "an_status (announcements_rowParser F r i) = cell r (AF_STATUS F)"
  "an_isPinned (announcements_rowParser F r i)
     \<longleftrightarrow> AF_IS_PINNED F < length r \<and> r ! AF_IS_PINNED F = str ''TRUE''"
  by (simp_all add: announcements_rowParser_def)

lemma pc_fields:
  "pc_createdTime (contacts_rowParser G r i) = cell r (CF_TIME G)"
  "pc_name (contacts_rowParser G r i) = cell r (CF_NAME G)"
  "pc_company (contacts_rowParser G r i) = cell r (CF_COMPANY G)"
  "pc_position (contacts_rowParser G r i) = cell r (CF_POSITION G)"
  "pc_department (contacts_rowParser G r i) = cell r (CF_DEPARTMENT G)"
  "pc_phone (contacts_rowParser G r i) = cell r (CF_PHONE G)"
  "pc_mobile (contacts_rowParser G r i) = cell r (CF_MOBILE G)"
  "pc_email (contacts_rowParser G r i) = cell r (CF_EMAIL G)"
  "pc_website (contacts_rowParser G r i) = cell r (CF_WEBSITE G)"
  "pc_address (contacts_rowParser G r i) = cell r (CF_ADDRESS G)"
  "pc_confidence (contacts_rowParser G r i) = cell r (CF_CONFIDENCE G)"
  "pc_status (contacts_rowParser G r i) = cell r (CF_STATUS G)"
  "pc_driveLink (contacts_rowParser G r i) = cell r (CF_DRIVE_LINK G)"
  "pc_cardImage (contacts_rowParser G r i) = cell r (CF_DRIVE_LINK G)"
  "pc_lineUserId (contacts_rowParser G r i) = cell r (CF_LINE_USER_ID G)"
  "pc_userNickname (contacts_rowParser G r i) = cell r (CF_USER_NICKNAME G)"
  by (simp_all add: contacts_rowParser_def Let_def)

lemma cell_cases:
  "((length r \<le> j \<or> r ! j = []) \<longrightarrow> cell r j = []) \<and> (j < length r \<longrightarrow> cell r j = r ! j)"
  by (auto simp: cell_def)

lemma announcement_fields_default: "\<forall>(field, column) \<in> set
        [(an_id, AF_ID), (an_title, AF_TITLE), (an_content, AF_CONTENT),
         (an_creator, AF_CREATOR), (an_createTime, AF_CREATE_TIME),
         (an_lastUpdateTime, AF_LAST_UPDATE_TIME), (an_status, AF_STATUS)].
      ((length r \<le> column F \<or> r ! column F = [])
          \<longrightarrow> field (announcements_rowParser F r i) = [])
      \<and> (column F < length r \<longrightarrow> field (announcements_rowParser F r i) = r ! column F)"
  by (simp add: an_fields cell_cases del: disj_not1)


lemma card_fields_default: "\<forall>(field, column) \<in> set
        [(pc_createdTime, CF_TIME), (pc_name, CF_NAME), (pc_company, CF_COMPANY),
         (pc_position, CF_POSITION), (pc_department, CF_DEPARTMENT), (pc_phone, CF_PHONE),
         (pc_mobile, CF_MOBILE), (pc_email, CF_EMAIL), (pc_website, CF_WEBSITE),
         (pc_address, CF_ADDRESS), (pc_confidence, CF_CONFIDENCE), (pc_status, CF_STATUS),
         (pc_driveLink, CF_DRIVE_LINK), (pc_cardImage, CF_DRIVE_LINK),
         (pc_lineUserId, CF_LINE_USER_ID), (pc_userNickname, CF_USER_NICKNAME)].
      ((length r \<le> column G \<or> r ! column G = [])
          \<longrightarrow> field (contacts_rowParser G r i) = [])
      \<and> (column G < length r \<longrightarrow> field (contacts_rowParser G r i) = r ! column G)"
  by (simp add: pc_fields cell_cases del: disj_not1)

text \<open>
  Claim C7. The row parsers of the announcements and of the cards are total functions of the
  row, with no failing branch. For every row, also one shorter than the columns the parser
  reads: a string field whose cell is missing or empty is the empty string, and otherwise
  it is the cell; \<open>isPinned\<close> is true exactly when its cell is there and is \<open>TRUE\<close>. A
  fetch parses every row on its own: it yields one record for each row, the record at
  position \<open>n\<close> being the parse of row \<open>n\<close>, whatever the other rows are.
\<close>

theorem row_parsers_total:
  "(\<forall>(field, column) \<in> set
        [(an_id, AF_ID), (an_title, AF_TITLE), (an_content, AF_CONTENT),
         (an_creator, AF_CREATOR), (an_createTime, AF_CREATE_TIME),
         (an_lastUpdateTime, AF_LAST_UPDATE_TIME), (an_status, AF_STATUS)].
      ((length r \<le> column F \<or> r ! column F = [])
          \<longrightarrow> field (announcements_rowParser F r i) = [])
      \<and> (column F < length r \<longrightarrow> field (announcements_rowParser F r i) = r ! column F))
   \<and> (an_isPinned (announcements_rowParser F r i)
        \<longleftrightarrow> AF_IS_PINNED F < length r \<and> r ! AF_IS_PINNED F = str ''TRUE'')
   \<and> (\<forall>(field, column) \<in> set
        [(pc_createdTime, CF_TIME), (pc_name, CF_NAME), (pc_company, CF_COMPANY),
         (pc_position, CF_POSITION), (pc_department, CF_DEPARTMENT), (pc_phone, CF_PHONE),
         (pc_mobile, CF_MOBILE), (pc_email, CF_EMAIL), (pc_website, CF_WEBSITE),
         (pc_address, CF_ADDRESS), (pc_confidence, CF_CONFIDENCE), (pc_status, CF_STATUS),
         (pc_driveLink, CF_DRIVE_LINK), (pc_cardImage, CF_DRIVE_LINK),
         (pc_lineUserId, CF_LINE_USER_ID), (pc_userNickname, CF_USER_NICKNAME)].
      ((length r \<le> column G \<or> r ! column G = [])
          \<longrightarrow> field (contacts_rowParser G r i) = [])
      \<and> (column G < length r \<longrightarrow> field (contacts_rowParser G r i) = r ! column G))
   \<and> length (mapIndexed (announcements_rowParser F) rows) = length rows
   \<and> length (mapIndexed (contacts_rowParser G) rows) = length rows
   \<and> (\<forall>n < length rows.
        mapIndexed (announcements_rowParser F) rows ! n = announcements_rowParser F (rows ! n) n
        \<and> mapIndexed (contacts_rowParser G) rows ! n = contacts_rowParser G (rows ! n) n)"
  by (intro conjI announcement_fields_default card_fields_default an_fields(8) length_mapIndexed) (simp add: nth_mapIndexed)

text \<open>
  The theorem at the row that holds nothing but its first cell, and at a fetch of that row
  after an empty one.
\<close>

theorem row_parsers_total_witness:
  "length [str ''A1''] \<le> AF_TITLE sampleAnnouncementFields
   \<and> AF_ID sampleAnnouncementFields < length [str ''A1'']
   \<and> length [str ''A1''] \<le> CF_NAME sampleContactFields
   \<and> CF_TIME sampleContactFields < length [str ''A1'']
   \<and> (1 :: nat) < length [[], [str ''A1'']]
   \<and> an_title (announcements_rowParser sampleAnnouncementFields [str ''A1''] 1) = []
   \<and> an_id (announcements_rowParser sampleAnnouncementFields [str ''A1''] 1) = [str ''A1''] ! 0
   \<and> pc_name (contacts_rowParser sampleContactFields [str ''A1''] 1) = []
   \<and> pc_createdTime (contacts_rowParser sampleContactFields [str ''A1''] 1) = [str ''A1''] ! 0
   \<and> mapIndexed (announcements_rowParser sampleAnnouncementFields) [[], [str ''A1'']] ! 1
       = announcements_rowParser sampleAnnouncementFields ([[], [str ''A1'']] ! 1) 1"
proof -
  have h: "length [str ''A1''] \<le> AF_TITLE sampleAnnouncementFields"
    "AF_ID sampleAnnouncementFields < length [str ''A1'']"
    "length [str ''A1''] \<le> CF_NAME sampleContactFields"
    "CF_TIME sampleContactFields < length [str ''A1'']"
    "(1 :: nat) < length [[], [str ''A1'']]"
    by (simp_all add: sampleAnnouncementFields_def sampleContactFields_def)
  have z: "AF_ID sampleAnnouncementFields = 0" "CF_TIME sampleContactFields = 0"
    by (simp_all add: sampleAnnouncementFields_def sampleContactFields_def)
  note T = row_parsers_total [where F = sampleAnnouncementFields and G = sampleContactFields
      and r = "[str ''A1'']" and i = 1 and rows = "[[], [str ''A1'']]"]
  from T h have a: "an_title (announcements_rowParser sampleAnnouncementFields [str ''A1''] 1) = []"
    and b: "an_id (announcements_rowParser sampleAnnouncementFields [str ''A1''] 1) = [str ''A1''] ! 0"
    and c: "pc_name (contacts_rowParser sampleContactFields [str ''A1''] 1) = []"
    and d: "pc_createdTime (contacts_rowParser sampleContactFields [str ''A1''] 1) = [str ''A1''] ! 0"
    and e: "mapIndexed (announcements_rowParser sampleAnnouncementFields) [[], [str ''A1'']] ! 1
       = announcements_rowParser sampleAnnouncementFields ([[], [str ''A1'']] ! 1) 1"
    by (simp_all add: sampleAnnouncementFields_def sampleContactFields_def del: disj_not1)
  from h a b c d e show ?thesis by blast
qed


subsection \<open>The order of the announcements\<close>

lemma sorter_sortKey:
  assumes "tv (an_lastUpdateTime a) \<noteq> None" "tv (an_lastUpdateTime b) \<noteq> None"
  shows "(sortCompare (announcements_sorter tv) a b > 0) = (sortKey tv a > sortKey tv b)"
  using assms
  by (auto simp: sortCompare_def announcements_sorter_def sortKey_def less_prod_def
      split: option.splits)

lemma sortedAnnouncements_sort_key:
  assumes "\<forall>x \<in> set xs. tv (an_lastUpdateTime x) \<noteq> None"
  shows "sortedAnnouncements tv xs = sort_key (sortKey tv) xs"
  unfolding sortedAnnouncements_def
  by (rule js_sort_sort_key) (simp add: sorter_sortKey assms)

lemma sortedAnnouncements_keys:
  assumes valid: "\<forall>x \<in> set xs. tv (an_lastUpdateTime x) \<noteq> None"
    and ij: "i < j" "j < length xs"
  shows "sortKey tv (sortedAnnouncements tv xs ! i) \<le> sortKey tv (sortedAnnouncements tv xs ! j)"
proof -
  let ?res = "sortedAnnouncements tv xs"
  have eq: "?res = sort_key (sortKey tv) xs"
    using valid by (rule sortedAnnouncements_sort_key)
  have "sorted (map (sortKey tv) ?res)" unfolding eq by simp
  moreover have "j < length (map (sortKey tv) ?res)"
    using ij by (simp add: sortedAnnouncements_def)
  ultimately have "map (sortKey tv) ?res ! i \<le> map (sortKey tv) ?res ! j"
    using ij(1) by (simp add: sorted_iff_nth_mono_less)
  then show ?thesis
    using ij by (simp add: sortedAnnouncements_def)
qed

text \<open>
  When every \<open>lastUpdateTime\<close> is a valid date the sorter is a consistent ordering and
  the sort does what the reader documents: it keeps every record, every pinned record
  comes before every record that is not pinned, of two records that are both pinned or
  both not pinned the one with the later date comes first, and records with the same pin
  flag and the same date keep their order in the input.
\<close>

lemma sortedAnnouncements_valid_dates:
  assumes valid: "\<forall>x \<in> set xs. tv (an_lastUpdateTime x) \<noteq> None"
  shows "mset (sortedAnnouncements tv xs) = mset xs"
    and "\<forall>i j. i < j \<and> j < length xs \<and> an_isPinned (sortedAnnouncements tv xs ! j)
           \<longrightarrow> an_isPinned (sortedAnnouncements tv xs ! i)"
    and "\<forall>i j. i < j \<and> j < length xs
               \<and> an_isPinned (sortedAnnouncements tv xs ! i) = an_isPinned (sortedAnnouncements tv xs ! j)
           \<longrightarrow> the (tv (an_lastUpdateTime (sortedAnnouncements tv xs ! j)))
                 \<le> the (tv (an_lastUpdateTime (sortedAnnouncements tv xs ! i)))"
    and "\<forall>p t. filter (\<lambda>x. an_isPinned x = p \<and> tv (an_lastUpdateTime x) = Some t)
                   (sortedAnnouncements tv xs)
               = filter (\<lambda>x. an_isPinned x = p \<and> tv (an_lastUpdateTime x) = Some t) xs"
proof -
  show "mset (sortedAnnouncements tv xs) = mset xs"
    by (simp add: sortedAnnouncements_def)
  show "\<forall>i j. i < j \<and> j < length xs \<and> an_isPinned (sortedAnnouncements tv xs ! j)
           \<longrightarrow> an_isPinned (sortedAnnouncements tv xs ! i)"
  proof (intro allI impI)
    fix i j
    assume ij: "i < j \<and> j < length xs \<and> an_isPinned (sortedAnnouncements tv xs ! j)"
    then have "sortKey tv (sortedAnnouncements tv xs ! i) \<le> sortKey tv (sortedAnnouncements tv xs ! j)"
      using valid by (simp add: sortedAnnouncements_keys)
    with ij show "an_isPinned (sortedAnnouncements tv xs ! i)"
      by (auto simp: sortKey_def less_eq_prod_def)
  qed
  show "\<forall>i j. i < j \<and> j < length xs
               \<and> an_isPinned (sortedAnnouncements tv xs ! i) = an_isPinned (sortedAnnouncements tv xs ! j)
           \<longrightarrow> the (tv (an_lastUpdateTime (sortedAnnouncements tv xs ! j)))
                 \<le> the (tv (an_lastUpdateTime (sortedAnnouncements tv xs ! i)))"
  proof (intro allI impI)
    fix i j
    assume ij: "i < j \<and> j < length xs
       \<and> an_isPinned (sortedAnnouncements tv xs ! i) = an_isPinned (sortedAnnouncements tv xs ! j)"
    then have "sortKey tv (sortedAnnouncements tv xs ! i) \<le> sortKey tv (sortedAnnouncements tv xs ! j)"
      using valid by (simp add: sortedAnnouncements_keys)
    with ij show "the (tv (an_lastUpdateTime (sortedAnnouncements tv xs ! j)))
        \<le> the (tv (an_lastUpdateTime (sortedAnnouncements tv xs ! i)))"
      by (simp add: sortKey_def less_eq_prod_def)
  qed
  show "\<forall>p t. filter (\<lambda>x. an_isPinned x = p \<and> tv (an_lastUpdateTime x) = Some t)
                   (sortedAnnouncements tv xs)
               = filter (\<lambda>x. an_isPinned x = p \<and> tv (an_lastUpdateTime x) = Some t) xs"
  proof (intro allI)
    fix p t
    let ?P = "\<lambda>x. an_isPinned x = p \<and> tv (an_lastUpdateTime x) = Some t"
    have eq: "sortedAnnouncements tv xs = sort_key (sortKey tv) xs"
      using valid by (rule sortedAnnouncements_sort_key)
    have same: "?P x = (sortKey tv x = (\<not> p, - t))" if "x \<in> set xs" for x
      using valid that by (auto simp: sortKey_def)
    have "filter ?P (sort_key (sortKey tv) xs)
        = filter (\<lambda>x. sortKey tv x = (\<not> p, - t)) (sort_key (sortKey tv) xs)"
      by (rule filter_cong) (simp_all add: same)
    also have "\<dots> = filter (\<lambda>x. sortKey tv x = (\<not> p, - t)) xs"
      by (rule sort_key_stable)
    also have "\<dots> = filter ?P xs"
      by (rule filter_cong) (simp_all add: same)
    finally show "filter ?P (sortedAnnouncements tv xs) = filter ?P xs"
      unfolding eq .
  qed
qed

text \<open>
  The sibling sorter of \<open>getContacts\<close> tests both dates with \<open>isNaN\<close> and puts a card
  with no valid date after a dated one, whichever of the two comes first in the call.
\<close>

lemma contacts_sorter_invalid_last:
  assumes "tv (pc_createdTime a) = None" "tv (pc_createdTime b) \<noteq> None"
  shows "contacts_sorter tv a b = Some 1" and "contacts_sorter tv b a = Some (- 1)"
  using assms by (auto simp: contacts_sorter_def Let_def split: option.splits)

text \<open>
  Claim C5. The claim puts a record whose \<open>lastUpdateTime\<close> is no valid date last, as the
  sorters of \<open>getContacts\<close> and of the interactions do with their \<open>isNaN\<close> branches. The
  sorter of the announcements has no such branch: of two records that are not pinned, the
  first with an empty \<open>lastUpdateTime\<close> and the second of 1 January 2026, it gives \<open>NaN\<close>
  both ways, which the sort takes as a tie, and the stable sort leaves the record with no
  date first, before the dated one.
\<close>

theorem announcements_invalid_date_first:
  "sampleTimeValue (an_lastUpdateTime (sampleAnnouncement ''A1'' False [])) = None
   \<and> sampleTimeValue (an_lastUpdateTime (sampleAnnouncement ''A2'' False ''2026-01-01''))
       = Some 1767225600000
   \<and> announcements_sorter sampleTimeValue (sampleAnnouncement ''A1'' False [])
        (sampleAnnouncement ''A2'' False ''2026-01-01'') = None
   \<and> announcements_sorter sampleTimeValue (sampleAnnouncement ''A2'' False ''2026-01-01'')
        (sampleAnnouncement ''A1'' False []) = None
   \<and> sortedAnnouncements sampleTimeValue
        [sampleAnnouncement ''A1'' False [], sampleAnnouncement ''A2'' False ''2026-01-01'']
       = [sampleAnnouncement ''A1'' False [], sampleAnnouncement ''A2'' False ''2026-01-01'']"
  by (simp add: sortedAnnouncements_def js_sort_def sortCompare_def announcements_sorter_def
      sampleAnnouncement_def sampleTimeValue_def str_def)


subsection \<open>The last activity of a company\<close>

lemma fold_max_ge: "(a :: int) \<le> fold max ts a"
proof (induction ts arbitrary: a)
  case Nil
  then show ?case by simp
next
  case (Cons t ts)
  have "a \<le> max t a" by simp
  also have "\<dots> \<le> fold max ts (max t a)" by (rule Cons.IH)
  finally show ?case by simp
qed

lemma updateActivity_other:
  "c \<noteq> cid \<Longrightarrow> updateActivity tv m c d cid = m cid"
  by (auto simp: updateActivity_def Let_def split: option.splits)

lemma updateActivity_skip:
  "cid = [] \<or> eventTime tv d = None \<Longrightarrow> updateActivity tv m cid d = m"
  by (auto simp: updateActivity_def eventTime_def Let_def split: option.splits if_splits)

lemma updateActivity_valid:
  "cid \<noteq> [] \<Longrightarrow> eventTime tv d = Some t \<Longrightarrow>
   updateActivity tv m cid d = (if t > current m cid then m(cid \<mapsto> t) else m)"
  by (auto simp: updateActivity_def eventTime_def current_def Let_def split: option.splits if_splits)

lemma raised_Nil [simp]: "raised m cid [] = m cid"
  by (simp add: raised_def)

lemma raised_Cons:
  "raised m cid (t # ts) = raised (if t > current m cid then m(cid \<mapsto> t) else m) cid ts"
proof (cases "t > current m cid")
  case True
  then have mx: "max t (current m cid) = t" by simp
  have ge: "t \<le> fold max ts t" by (rule fold_max_ge)
  have cur: "current (m(cid \<mapsto> t)) cid = t" by (simp add: current_def)
  show ?thesis using True ge unfolding raised_def fold_simps mx
    by (auto simp: cur)
next
  case False
  then have "max t (current m cid) = current m cid" by simp
  with False show ?thesis by (simp add: raised_def)
qed

lemma foldl_interactions:
  assumes "cid \<noteq> []"
  shows "raised (foldl (\<lambda>m i. updateActivity tv m (in_companyId i) (interactionDate i)) m is) cid ts
       = raised m cid
           (List.map_filter (\<lambda>i. if in_companyId i = cid then eventTime tv (interactionDate i) else None) is @ ts)"
proof (induction "is" arbitrary: m)
  case Nil
  then show ?case by (simp add: List.map_filter_simps)
next
  case (Cons i "is")
  show ?case
  proof (cases "in_companyId i = cid")
    case False
    then have "raised (updateActivity tv m (in_companyId i) (interactionDate i)) cid xs = raised m cid xs" for xs
      by (simp add: raised_def current_def updateActivity_other)
    with False Cons show ?thesis by (simp add: List.map_filter_simps)
  next
    case True
    show ?thesis
    proof (cases "eventTime tv (interactionDate i)")
      case None
      with True Cons show ?thesis by (simp add: List.map_filter_simps updateActivity_skip)
    next
      case (Some t)
      with True Cons assms show ?thesis
        by (simp add: List.map_filter_simps updateActivity_valid raised_Cons)
    qed
  qed
qed


lemma foldl_eventLogs:
  assumes "cid \<noteq> []"
  shows "raised (foldl (\<lambda>m e. updateActivity tv m (ev_companyId e) (Some (ev_createdTime e))) m es) cid ts
       = raised m cid
           (List.map_filter (\<lambda>e. if ev_companyId e = cid then eventTime tv (Some (ev_createdTime e)) else None) es @ ts)"
proof (induction es arbitrary: m)
  case Nil
  then show ?case by (simp add: List.map_filter_simps)
next
  case (Cons e es)
  show ?case
  proof (cases "ev_companyId e = cid")
    case False
    then have "raised (updateActivity tv m (ev_companyId e) (Some (ev_createdTime e))) cid xs = raised m cid xs" for xs
      by (simp add: raised_def current_def updateActivity_other)
    with False Cons show ?thesis by (simp add: List.map_filter_simps)
  next
    case True
    show ?thesis
    proof (cases "eventTime tv (Some (ev_createdTime e))")
      case None
      with True Cons show ?thesis by (simp add: List.map_filter_simps updateActivity_skip)
    next
      case (Some t)
      with True Cons assms show ?thesis
        by (simp add: List.map_filter_simps updateActivity_valid raised_Cons)
    qed
  qed
qed

lemma activityMap_empty_id: "activityMap tv ints logs [] = None"
proof -
  have a: "foldl (\<lambda>m i. updateActivity tv m (in_companyId i) (interactionDate i)) m ints [] = m []" for m
    by (induction ints arbitrary: m)
      (auto simp: updateActivity_def Let_def split: option.splits)
  have b: "foldl (\<lambda>m e. updateActivity tv m (ev_companyId e) (Some (ev_createdTime e))) m logs [] = m []" for m
    by (induction logs arbitrary: m)
      (auto simp: updateActivity_def Let_def split: option.splits)
  show ?thesis by (simp add: activityMap_def a b)
qed

lemma activityMap_contributing:
  "activityMap tv ints logs cid =
     (if fold max (contributing tv ints logs cid) 0 > 0
      then Some (fold max (contributing tv ints logs cid) 0) else None)"
proof (cases "cid = []")
  case True
  then show ?thesis by (simp add: activityMap_empty_id contributing_def)
next
  case False
  let ?I = "foldl (\<lambda>m i. updateActivity tv m (in_companyId i) (interactionDate i)) Map.empty ints"
  let ?ti = "List.map_filter (\<lambda>i. if in_companyId i = cid then eventTime tv (interactionDate i) else None) ints"
  let ?te = "List.map_filter (\<lambda>e. if ev_companyId e = cid then eventTime tv (Some (ev_createdTime e)) else None) logs"
  have "activityMap tv ints logs cid
      = raised (foldl (\<lambda>m e. updateActivity tv m (ev_companyId e) (Some (ev_createdTime e))) ?I logs) cid []"
    by (simp add: activityMap_def)
  also have "\<dots> = raised ?I cid (?te @ [])"
    using False by (rule foldl_eventLogs)
  also have "\<dots> = raised Map.empty cid (?ti @ ?te)"
    using foldl_interactions [OF False, of tv Map.empty ints ?te] by simp
  also have "\<dots> = raised Map.empty cid (contributing tv ints logs cid)"
    using False by (simp add: contributing_def)
  finally show ?thesis by (simp add: raised_def current_def)
qed

text \<open>
  \<open>getCompanyListWithActivity\<close> lists every company that passes the filters with the
  \<open>lastActivity\<close> computed for it. An event with an invalid date leaves the map as it
  is. Where the time values met are above 0, that is for dates after 1 January 1970 UTC,
  the aggregation gives a company with no contributing event its creation time, or \<open>null\<close>
  when \<open>createdTime\<close> is empty or invalid, and a company with exactly one contributing
  event the time of that event.
\<close>

lemma lastActivity_after_epoch:
  "set (getCompanyListWithActivity lc tv toISO fs companies ints logs)
     = (\<lambda>c. \<lparr>li_company = c,
               lastActivity = sc_lastActivity (withActivity tv toISO (activityMap tv ints logs) c)\<rparr>)
         ` set (applyFilters lc fs companies)
   \<and> (contributing tv ints logs (companyId c) = [] \<and> createdTime c \<noteq> []
        \<and> tv (createdTime c) = Some created \<and> 0 < created
      \<longrightarrow> sc_lastActivity (withActivity tv toISO (activityMap tv ints logs) c) = Some (toISO created))
   \<and> (contributing tv ints logs (companyId c) = [] \<and> (createdTime c = [] \<or> tv (createdTime c) = None)
      \<longrightarrow> sc_lastActivity (withActivity tv toISO (activityMap tv ints logs) c) = None)
   \<and> (contributing tv ints logs (companyId c) = [ts] \<and> 0 < ts
      \<longrightarrow> sc_lastActivity (withActivity tv toISO (activityMap tv ints logs) c) = Some (toISO ts))
   \<and> (tv d = None \<longrightarrow> updateActivity tv m k (Some d) = m)"
proof (intro conjI impI)
  show "set (getCompanyListWithActivity lc tv toISO fs companies ints logs)
     = (\<lambda>c. \<lparr>li_company = c,
               lastActivity = sc_lastActivity (withActivity tv toISO (activityMap tv ints logs) c)\<rparr>)
         ` set (applyFilters lc fs companies)"
    by (simp add: getCompanyListWithActivity_def Let_def set_js_sort image_image withActivity_def)
next
  assume "contributing tv ints logs (companyId c) = [] \<and> createdTime c \<noteq> []
        \<and> tv (createdTime c) = Some created \<and> 0 < created"
  then show "sc_lastActivity (withActivity tv toISO (activityMap tv ints logs) c) = Some (toISO created)"
    by (simp add: withActivity_def lastTsOf_def activityMap_contributing)
next
  assume "contributing tv ints logs (companyId c) = [] \<and> (createdTime c = [] \<or> tv (createdTime c) = None)"
  then show "sc_lastActivity (withActivity tv toISO (activityMap tv ints logs) c) = None"
    by (auto simp: withActivity_def lastTsOf_def activityMap_contributing)
next
  assume "contributing tv ints logs (companyId c) = [ts] \<and> 0 < ts"
  then show "sc_lastActivity (withActivity tv toISO (activityMap tv ints logs) c) = Some (toISO ts)"
    by (simp add: withActivity_def lastTsOf_def activityMap_contributing)
next
  assume "tv d = None"
  then show "updateActivity tv m k (Some d) = m"
    by (simp add: updateActivity_def)
qed

text \<open>
  Two companies created on 1 January 2026, \<open>C2\<close> with no event and \<open>C1\<close> with one event
  of 2 January 2026: \<open>C1\<close> is listed first, with the time of its event, and \<open>C2\<close> with
  its creation time.
\<close>

lemma lastActivity_after_epoch_example:
  "map (\<lambda>r. (companyId (li_company r), lastActivity r))
        (getCompanyListWithActivity sampleToLowerCase sampleTimeValue sampleISOString noFilters
           [sampleCompany ''C2'' ''Beta'' ''2026-01-01'', sampleCompany ''C1'' ''Acme'' ''2026-01-01'']
           [sampleInteraction ''C1'' ''2026-01-02''] [])
       = [(str ''C1'', Some (str ''2026-01-02T00:00:00.000Z'')),
          (str ''C2'', Some (str ''2026-01-01T00:00:00.000Z''))]"
  by (simp add: getCompanyListWithActivity_def applyFilters_def activityMap_def
      updateActivity_def withActivity_def lastTsOf_def interactionDate_def js_sort_def
      sortCompare_def bySortTs_def Let_def
      sampleInteraction_def sampleCompany_def noFilters_def sampleTimeValue_def
      sampleISOString_def str_def)

text \<open>
  Claim C8. The claim gives a company with exactly one valid event after its creation the
  time of that event, and so do the comments of the code: \<open>updateActivity\<close> is to keep
  the largest time value, and the creation time is the fallback for a company with no
  event. But \<open>updateActivity\<close> compares with \<open>lastActivityMap.get(companyId) || 0\<close>, so a
  first event whose time value is not above 0 is never stored. A company created on
  30 December 1969 with one event, of 31 December 1969, valid and after the creation, gets
  the creation time as its last activity: the fallback takes the negative time value of the
  creation that the map refused from the event.
\<close>

theorem last_activity_before_epoch:
  "contributing sampleTimeValue [sampleInteraction ''C1'' ''1969-12-31''] [] (str ''C1'')
     = [- 86400000]
   \<and> sampleTimeValue (createdTime (sampleCompany ''C1'' ''Acme'' ''1969-12-30'')) = Some (- 172800000)
   \<and> (- 172800000 :: int) < - 86400000
   \<and> activityMap sampleTimeValue [sampleInteraction ''C1'' ''1969-12-31''] [] (str ''C1'') = None
   \<and> map lastActivity
        (getCompanyListWithActivity sampleToLowerCase sampleTimeValue sampleISOString noFilters
           [sampleCompany ''C1'' ''Acme'' ''1969-12-30''] [sampleInteraction ''C1'' ''1969-12-31''] [])
       = [Some (str ''1969-12-30T00:00:00.000Z'')]
   \<and> sampleISOString (- 86400000) = str ''1969-12-31T00:00:00.000Z''
   \<and> str ''1969-12-30T00:00:00.000Z'' \<noteq> str ''1969-12-31T00:00:00.000Z''"
  by (simp add: contributing_def eventTime_def interactionDate_def List.map_filter_simps
      getCompanyListWithActivity_def applyFilters_def activityMap_def updateActivity_def
      withActivity_def lastTsOf_def js_sort_def Let_def
      sampleInteraction_def sampleCompany_def noFilters_def sampleTimeValue_def
      sampleISOString_def str_def)


subsection \<open>The normalised company name\<close>

lemma length_trim: "length (trim x) \<le> length x"
  unfolding trim_def
  by (metis length_dropWhile_le length_rev order_trans)

lemma length_stripMatches: "length (stripMatches m x) \<le> length x"
proof (induction m x rule: stripMatches.induct)
  case (1 m)
  then show ?case by simp
next
  case (2 m c cs)
  show ?case
  proof (cases "m (c # cs)")
    case None
    with 2 show ?thesis by auto
  next
    case (Some k)
    show ?thesis
    proof (cases k)
      case 0
      with Some 2 show ?thesis by auto
    next
      case (Suc n)
      with Some 2 have "length (stripMatches m (drop n cs)) \<le> length (drop n cs)" by simp
      then show ?thesis using Some Suc by auto
    qed
  qed
qed

lemma trim_fixed_iff:
  "trim x = x \<longleftrightarrow> x = [] \<or> (\<not> isWhiteSpace (hd x) \<and> \<not> isWhiteSpace (last x))"
proof (cases "x = []")
  case True
  then show ?thesis by (simp add: trim_def)
next
  case False
  show ?thesis
  proof
    assume eq: "trim x = x"
    have "length (dropWhile isWhiteSpace x) = length x"
    proof (rule antisym)
      show "length (dropWhile isWhiteSpace x) \<le> length x" by (rule length_dropWhile_le)
      have "length x = length (trim x)" using eq by simp
      also have "\<dots> \<le> length (dropWhile isWhiteSpace x)"
        unfolding trim_def by (metis length_dropWhile_le length_rev)
      finally show "length x \<le> length (dropWhile isWhiteSpace x)" .
    qed
    then have d1: "dropWhile isWhiteSpace x = x"
      by (metis append_eq_conv_conj length_0_conv length_append add_cancel_left_left takeWhile_dropWhile_id self_append_conv2)
    with eq have "rev (dropWhile isWhiteSpace (rev x)) = x" by (simp add: trim_def)
    then have d2: "dropWhile isWhiteSpace (rev x) = rev x" by (metis rev_rev_ident)
    from d1 False have "\<not> isWhiteSpace (hd x)" by (simp add: dropWhile_eq_self_iff)
    moreover from d2 False have "\<not> isWhiteSpace (last x)"
      by (simp add: dropWhile_eq_self_iff hd_rev)
    ultimately show "x = [] \<or> (\<not> isWhiteSpace (hd x) \<and> \<not> isWhiteSpace (last x))" by simp
  next
    assume "x = [] \<or> (\<not> isWhiteSpace (hd x) \<and> \<not> isWhiteSpace (last x))"
    with False have "\<not> isWhiteSpace (hd x)" "\<not> isWhiteSpace (last x)" by simp_all
    then have "dropWhile isWhiteSpace x = x" "dropWhile isWhiteSpace (rev x) = rev x"
      using False by (simp_all add: dropWhile_eq_self_iff hd_rev)
    then show "trim x = x" by (simp add: trim_def)
  qed
qed


lemma last_dropWhile: "dropWhile P xs \<noteq> [] \<Longrightarrow> last (dropWhile P xs) = last xs"
  by (metis last_appendR takeWhile_dropWhile_id)

lemma trim_trim: "trim (trim x) = trim x"
proof (cases "trim x = []")
  case True
  have "trim [] = []" by (simp add: trim_def)
  with True show ?thesis by simp
next
  case False
  let ?y = "dropWhile isWhiteSpace x"
  let ?d = "dropWhile isWhiteSpace (rev ?y)"
  have t: "trim x = rev ?d" by (simp add: trim_def)
  with False have d: "?d \<noteq> []" by simp
  have y: "?y \<noteq> []"
  proof
    assume "?y = []"
    then have "?d = []" by (simp only: rev.simps(1) dropWhile.simps(1))
    with d show False by (simp only: not_True_eq_False simp_thms)
  qed
  have "last (trim x) = hd ?d" using d by (simp add: t last_rev)
  then have l: "\<not> isWhiteSpace (last (trim x))" using d by (simp add: hd_dropWhile)
  have "hd (trim x) = last ?d" using d by (simp add: t hd_rev)
  also have "\<dots> = last (rev ?y)" using d by (rule last_dropWhile)
  also have "\<dots> = hd ?y" using y by (simp add: last_rev)
  finally have "\<not> isWhiteSpace (hd (trim x))" using y by (simp add: hd_dropWhile)
  with l show ?thesis by (simp add: trim_fixed_iff)
qed

lemma noMatch_Nil [simp]: "noMatch m [] = (m [] = None)"
  by (simp add: noMatch_def)

lemma noMatch_Cons: "noMatch m (c # cs) \<longleftrightarrow> m (c # cs) = None \<and> noMatch m cs"
  by (auto simp: noMatch_def suffix_Cons)

lemma noMatch_suffix: "noMatch m x \<Longrightarrow> suffix u x \<Longrightarrow> noMatch m u"
  by (auto simp: noMatch_def dest: suffix_order.trans)

lemma stripMatches_noMatch: "noMatch m x \<Longrightarrow> stripMatches m x = x"
  by (induction x) (auto simp: noMatch_Cons)

lemma matchParens_Nil [simp]: "matchParens [] = None"
  by (simp add: matchParens_def)

lemma matchParens_None_iff:
  "matchParens (c # cs) = None \<longleftrightarrow>
     c \<noteq> 0x28 \<or> 0x29 \<notin> set (takeWhile (\<lambda>u. \<not> isLineTerminator u) cs)"
  by (simp add: matchParens_def Let_def)

lemma line_stripMatches:
  "0x29 \<notin> set (takeWhile (\<lambda>u. \<not> isLineTerminator u) cs) \<Longrightarrow>
   takeWhile (\<lambda>u. \<not> isLineTerminator u) (stripMatches matchParens cs)
     = takeWhile (\<lambda>u. \<not> isLineTerminator u) cs"
proof (induction cs)
  case Nil
  then show ?case by simp
next
  case (Cons d ds)
  show ?case
  proof (cases "isLineTerminator d")
    case True
    then have "d \<noteq> 0x28" by (auto simp: isLineTerminator_def)
    then have "matchParens (d # ds) = None" by (simp add: matchParens_None_iff)
    with True show ?thesis by simp
  next
    case False
    with Cons.prems have rest: "0x29 \<notin> set (takeWhile (\<lambda>u. \<not> isLineTerminator u) ds)"
      by simp
    then have "matchParens (d # ds) = None" by (simp add: matchParens_None_iff)
    with False rest Cons.IH show ?thesis by simp
  qed
qed

lemma noMatch_stripMatches_parens: "noMatch matchParens (stripMatches matchParens v)"
proof (induction "matchParens" v rule: stripMatches.induct)
  case 1
  then show ?case by simp
next
  case (2 c cs)
  show ?case
  proof (cases "matchParens (c # cs)")
    case None
    with 2 have IH: "noMatch matchParens (stripMatches matchParens cs)" by simp
    have "matchParens (c # stripMatches matchParens cs) = None"
      using None by (auto simp: matchParens_None_iff line_stripMatches)
    with IH None show ?thesis by (simp add: noMatch_Cons)
  next
    case (Some k)
    then obtain n where k: "k = Suc n"
      by (cases k) (auto simp: matchParens_def Let_def split: if_splits)
    with Some 2 show ?thesis by simp
  qed
qed

lemma matchParens_append:
  assumes "matchParens u \<noteq> None"
  shows "matchParens (u @ w) \<noteq> None"
proof (cases u)
  case Nil
  with assms show ?thesis by simp
next
  case (Cons c cs)
  with assms have c: "c = 0x28"
    and r: "0x29 \<in> set (takeWhile (\<lambda>u. \<not> isLineTerminator u) cs)"
    by (auto simp: matchParens_None_iff)
  have "set (takeWhile (\<lambda>u. \<not> isLineTerminator u) cs)
      \<subseteq> set (takeWhile (\<lambda>u. \<not> isLineTerminator u) (cs @ w))"
    by (auto simp: takeWhile_append dest: set_takeWhileD)
  with r c Cons show ?thesis by (auto simp: matchParens_None_iff)
qed

lemma noMatch_prefix_parens:
  assumes "noMatch matchParens (z @ w)"
  shows "noMatch matchParens z"
  unfolding noMatch_def
proof (intro allI impI)
  fix u
  assume "suffix u z"
  then have "suffix (u @ w) (z @ w)" by (auto simp: suffix_def)
  with assms have "matchParens (u @ w) = None" by (simp add: noMatch_def)
  then show "matchParens u = None" using matchParens_append by blast
qed

lemma noMatch_trim_parens:
  assumes "noMatch matchParens x"
  shows "noMatch matchParens (trim x)"
proof -
  let ?y = "dropWhile isWhiteSpace x"
  have y: "noMatch matchParens ?y"
    using assms by (rule noMatch_suffix) (rule suffix_dropWhile)
  have "rev (rev ?y) = rev (takeWhile isWhiteSpace (rev ?y) @ dropWhile isWhiteSpace (rev ?y))"
    by (simp only: takeWhile_dropWhile_id)
  then have "?y = trim x @ rev (takeWhile isWhiteSpace (rev ?y))"
    by (simp only: rev_rev_ident rev_append trim_def)
  with y show ?thesis by (metis noMatch_prefix_parens)
qed


lemma includes_str_iff: "includes_str t p \<longleftrightarrow> (\<exists>u. suffix u t \<and> prefix p u)"
  by (induction t) (auto simp: suffix_Cons)

lemma matchSuffix_token:
  assumes "matchSuffix u \<noteq> None"
  shows "\<exists>v. suffix v u \<and> prefix suffix2 v"
proof -
  from assms consider "prefix suffix6 u" | "prefix suffix4 u" | "prefix suffix2 u"
    by (auto simp: matchSuffix_def split: if_splits)
  then show ?thesis
  proof cases
    case 1
    then obtain r where "u = suffix6 @ r" by (auto simp: prefix_def)
    then have "u = [0x80A1, 0x4EFD, 0x6709, 0x9650] @ (suffix2 @ r)"
      by (simp add: suffix6_def suffix2_def)
    then have "suffix (suffix2 @ r) u" by (metis suffixI)
    then show ?thesis by (metis prefixI)
  next
    case 2
    then obtain r where "u = suffix4 @ r" by (auto simp: prefix_def)
    then have "u = [0x6709, 0x9650] @ (suffix2 @ r)"
      by (simp add: suffix4_def suffix2_def)
    then have "suffix (suffix2 @ r) u" by (metis suffixI)
    then show ?thesis by (metis prefixI)
  next
    case 3
    then show ?thesis by auto
  qed
qed

lemma noMatch_matchSuffix:
  assumes "\<not> includes_str t suffix2"
  shows "noMatch matchSuffix t"
  unfolding noMatch_def
proof (intro allI impI)
  fix u
  assume u: "suffix u t"
  show "matchSuffix u = None"
  proof (rule ccontr)
    assume "matchSuffix u \<noteq> None"
    then obtain v where v: "suffix v u" "prefix suffix2 v" using matchSuffix_token by blast
    from v(1) u have "suffix v t" by (rule suffix_order.trans)
    with v(2) have "includes_str t suffix2" unfolding includes_str_iff by blast
    with assms show False by simp
  qed
qed

lemma matchSuffix_positive: "matchSuffix u \<noteq> Some 0"
  by (simp add: matchSuffix_def)

lemma matchSuffix_of_token: "prefix suffix2 u \<Longrightarrow> matchSuffix u \<noteq> None"
  by (simp add: matchSuffix_def)

lemma stripMatches_shorter:
  assumes "\<And>u. m u \<noteq> Some 0" and "m [] = None" and "suffix u x" and "m u \<noteq> None"
  shows "length (stripMatches m x) < length x"
  using assms(3,4)
proof (induction x)
  case Nil
  then have "u = []" by simp
  with Nil assms(2) show ?case by simp
next
  case (Cons c cs)
  show ?case
  proof (cases "m (c # cs)")
    case None
    with Cons.prems have "suffix u cs" by (auto simp: suffix_Cons)
    with Cons have "length (stripMatches m cs) < length cs" by simp
    with None show ?thesis by simp
  next
    case (Some k)
    with assms(1) obtain n where k: "k = Suc n" by (cases k) auto
    have "length (stripMatches m (drop n cs)) \<le> length (drop n cs)" by (rule length_stripMatches)
    with Some k show ?thesis by simp
  qed
qed


lemma normalizeCompanyName_trimmed:
  "trim (normalizeCompanyName lc s) = normalizeCompanyName lc s"
proof -
  have "trim [] = []" by (simp add: trim_def)
  then show ?thesis by (simp add: normalizeCompanyName_def trim_trim)
qed

lemma normalizeCompanyName_noParens: "noMatch matchParens (normalizeCompanyName lc s)"
  by (simp add: normalizeCompanyName_def noMatch_trim_parens noMatch_stripMatches_parens)

lemma normalizeCompanyName_twice:
  assumes "normalizeCompanyName lc s \<noteq> []"
    and "lc (normalizeCompanyName lc s) = normalizeCompanyName lc s"
  shows "normalizeCompanyName lc (normalizeCompanyName lc s)
     = trim (stripMatches matchParens (stripMatches matchSuffix (normalizeCompanyName lc s)))"
proof -
  let ?t = "normalizeCompanyName lc s"
  have "normalizeCompanyName lc ?t
      = trim (stripMatches matchParens (stripMatches matchSuffix (trim (lc ?t))))"
    using assms(1) by (simp add: normalizeCompanyName_def [of lc ?t])
  then show ?thesis by (simp only: assms(2) normalizeCompanyName_trimmed)
qed

text \<open>
  Claim C3, as amended. For every input whose normalised name is one that \<open>toLowerCase\<close>
  leaves as it is, normalising the normalised name gives the same name exactly when the
  normalised name holds no occurrence of the two-unit company suffix (U+516C U+53F8): it
  does for every such input whose normalised name has none, and for no such input whose
  normalised name has one. \<open>toLowerCase\<close> is any function on strings here, the engine's
  among them.
\<close>

theorem normalize_idempotent_iff:
  "lc (normalizeCompanyName lc s) = normalizeCompanyName lc s \<longrightarrow>
     (normalizeCompanyName lc (normalizeCompanyName lc s) = normalizeCompanyName lc s
        \<longleftrightarrow> \<not> includes_str (normalizeCompanyName lc s) suffix2)"
proof (intro impI iffI)
  let ?t = "normalizeCompanyName lc s"
  assume low: "lc ?t = ?t" and fixed: "normalizeCompanyName lc ?t = ?t"
  show "\<not> includes_str ?t suffix2"
  proof
    assume inc: "includes_str ?t suffix2"
    then have ne: "?t \<noteq> []" by (auto simp: suffix2_def)
    from inc obtain u where u: "suffix u ?t" "prefix suffix2 u"
      unfolding includes_str_iff by blast
    have "length (stripMatches matchSuffix ?t) < length ?t"
    proof (rule stripMatches_shorter)
      show "matchSuffix v \<noteq> Some 0" for v by (rule matchSuffix_positive)
      show "matchSuffix [] = None" by (simp add: matchSuffix_def suffix2_def suffix4_def suffix6_def)
      show "suffix u ?t" by (rule u(1))
      show "matchSuffix u \<noteq> None" using u(2) by (rule matchSuffix_of_token)
    qed
    moreover have "length (normalizeCompanyName lc ?t) \<le> length (stripMatches matchSuffix ?t)"
      unfolding normalizeCompanyName_twice [OF ne low]
      using length_trim length_stripMatches by (meson order_trans)
    ultimately have "length (normalizeCompanyName lc ?t) < length ?t" by simp
    with fixed show False by simp
  qed
next
  let ?t = "normalizeCompanyName lc s"
  assume low: "lc ?t = ?t" and none: "\<not> includes_str ?t suffix2"
  show "normalizeCompanyName lc ?t = ?t"
  proof (cases "?t = []")
    case True
    then show ?thesis by (simp add: normalizeCompanyName_def [of lc "[]"])
  next
    case False
    have s1: "stripMatches matchSuffix ?t = ?t"
      using none by (intro stripMatches_noMatch noMatch_matchSuffix)
    have s2: "stripMatches matchParens ?t = ?t"
      by (intro stripMatches_noMatch normalizeCompanyName_noParens)
    show ?thesis
      unfolding normalizeCompanyName_twice [OF False low]
      by (simp only: s1 s2 normalizeCompanyName_trimmed)
  qed
qed

text \<open>
  Claim C3 as stated fails. The four units U+516C U+516C U+53F8 U+53F8 are normalised to
  the two-unit suffix, which the single pass had split, and that is normalised to the empty
  string. And the units U+D801 U+516C U+53F8 U+DC00 are normalised to the pair
  U+D801 U+DC00, which holds no suffix, but which stripping the suffix has made one letter
  with a lower case: normalised again it is U+D801 U+DC28.
\<close>

theorem normalize_not_idempotent_counterexample:
  "normalizeCompanyName sampleToLowerCase [0x516C, 0x516C, 0x53F8, 0x53F8] = [0x516C, 0x53F8]
   \<and> normalizeCompanyName sampleToLowerCase
        (normalizeCompanyName sampleToLowerCase [0x516C, 0x516C, 0x53F8, 0x53F8]) = []
   \<and> normalizeCompanyName sampleToLowerCase
        (normalizeCompanyName sampleToLowerCase [0x516C, 0x516C, 0x53F8, 0x53F8])
       \<noteq> normalizeCompanyName sampleToLowerCase [0x516C, 0x516C, 0x53F8, 0x53F8]
   \<and> normalizeCompanyName sampleToLowerCase [0xD801, 0x516C, 0x53F8, 0xDC00] = [0xD801, 0xDC00]
   \<and> normalizeCompanyName sampleToLowerCase
        (normalizeCompanyName sampleToLowerCase [0xD801, 0x516C, 0x53F8, 0xDC00])
       = [0xD801, 0xDC28]
   \<and> normalizeCompanyName sampleToLowerCase
        (normalizeCompanyName sampleToLowerCase [0xD801, 0x516C, 0x53F8, 0xDC00])
       \<noteq> normalizeCompanyName sampleToLowerCase [0xD801, 0x516C, 0x53F8, 0xDC00]"
  by (simp add: normalizeCompanyName_def lowerUnit_def trim_def isWhiteSpace_def
      isLineTerminator_def matchSuffix_def suffix6_def suffix4_def suffix2_def matchParens_def)

text \<open>
  The theorem at \<open>ACME (Taiwan)\<close> with the six-unit suffix: the normalised name is
  \<open>acme\<close>, which \<open>toLowerCase\<close> leaves as it is and which holds no suffix, and normalising
  it again changes nothing.
\<close>

theorem normalize_idempotent_iff_witness:
  "normalizeCompanyName sampleToLowerCase sampleCompanyName = str ''acme''
   \<and> sampleToLowerCase (normalizeCompanyName sampleToLowerCase sampleCompanyName)
       = normalizeCompanyName sampleToLowerCase sampleCompanyName
   \<and> \<not> includes_str (normalizeCompanyName sampleToLowerCase sampleCompanyName) suffix2
   \<and> normalizeCompanyName sampleToLowerCase
        (normalizeCompanyName sampleToLowerCase sampleCompanyName)
       = normalizeCompanyName sampleToLowerCase sampleCompanyName"
proof -
  have n: "normalizeCompanyName sampleToLowerCase sampleCompanyName = str ''acme''"
    by (simp add: normalizeCompanyName_def lowerUnit_def trim_def
        isWhiteSpace_def isLineTerminator_def matchSuffix_def suffix6_def suffix4_def
        suffix2_def matchParens_def sampleCompanyName_def str_def)
  have l: "sampleToLowerCase (normalizeCompanyName sampleToLowerCase sampleCompanyName)
       = normalizeCompanyName sampleToLowerCase sampleCompanyName"
    unfolding n by (simp add: lowerUnit_def str_def)
  have i: "\<not> includes_str (normalizeCompanyName sampleToLowerCase sampleCompanyName) suffix2"
    unfolding n by (simp add: suffix2_def str_def)
  from normalize_idempotent_iff [of sampleToLowerCase sampleCompanyName] l i n
  show ?thesis by blast
qed

end
